theory Spec2Isabelle
  imports Main "HOL-Library.Sublist" "HOL-Library.Char_ord" "HOL-Library.List_Lexorder"
begin

section \<open>Data model\<close>

text \<open>
  The service of \<^verbatim>\<open>internal/service\<close> keeps all of its state in four tables
  (\<^verbatim>\<open>internal/database/database.go\<close>, \<^verbatim>\<open>RunMigrations\<close>). A table is modelled as the
  list of its rows in scan order: a \<^verbatim>\<open>SELECT\<close> without \<^verbatim>\<open>ORDER BY\<close> returns the
  matching rows in the order of the list, an \<^verbatim>\<open>INSERT\<close> appends a row, an
  \<^verbatim>\<open>UPDATE\<close> rewrites the matching rows where they stand. \<^verbatim>\<open>ORDER BY\<close> on a text
  column is the byte-wise lexicographic order of strings.

  The columns \<^verbatim>\<open>created_at\<close> and \<^verbatim>\<open>updated_at\<close> of \<^verbatim>\<open>teams\<close> and \<^verbatim>\<open>users\<close>
  are written by the service and read by none of its queries; they are left out, so
  \<^verbatim>\<open>teams\<close> is the list of its keys. Timestamps are natural numbers (instants); a
  nullable timestamp is an option.
\<close>

record user_row =
  user_id :: string
  username :: string
  team_name :: string
  is_active :: bool

record pr_row =
  pull_request_id :: string
  pull_request_name :: string
  author_id :: string
  status :: string
  created_at :: "nat option"
  merged_at :: "nat option"

text \<open>A row of \<^verbatim>\<open>pr_reviewers\<close> is the pair \<^verbatim>\<open>(pull_request_id, reviewer_id)\<close>.\<close>

record db =
  teams :: "string list"
  users :: "user_row list"
  pull_requests :: "pr_row list"
  pr_reviewers :: "(string \<times> string) list"

text \<open>The structs of package \<^verbatim>\<open>models\<close>.\<close>

record TeamMember =
  UserID :: string
  Username :: string
  IsActive :: bool

record Team =
  TeamName :: string
  Members :: "TeamMember list"

record PullRequest =
  PullRequestID :: string
  PullRequestName :: string
  AuthorID :: string
  Status :: string
  AssignedReviewers :: "string list"
  CreatedAt :: "nat option"
  MergedAt :: "nat option"

definition StatusOpen :: string where
  "StatusOpen = ''OPEN''"

definition StatusMerged :: string where
  "StatusMerged = ''MERGED''"

text \<open>
  An error value of the service is either built by \<^verbatim>\<open>fmt.Errorf\<close> from a literal
  message, or it is an error handed up from \<^verbatim>\<open>database/sql\<close> and the driver.
\<close>

datatype error = Errorf string | DriverError

section \<open>Error helpers\<close>

text \<open>
  \<^verbatim>\<open>IsErrorCode\<close>, \<^verbatim>\<open>GetErrorCode\<close> and \<^verbatim>\<open>GetErrorMessage\<close> look at an error only
  through \<^verbatim>\<open>err == nil\<close> and \<^verbatim>\<open>err.Error()\<close>: their argument is \<open>None\<close> for
  \<^verbatim>\<open>nil\<close> and \<open>Some errStr\<close> for an error with that text. A string is its list of
  bytes. The loop \<^verbatim>\<open>for i, r := range errStr\<close> walks runes, \<open>i\<close> being the byte
  offset of the rune; the byte \<^verbatim>\<open>':'\<close> never occurs inside a multi-byte rune, so the
  first offset with \<^verbatim>\<open>r == ':'\<close> is the offset of the first such byte.
\<close>

definition IsErrorCode :: "string option \<Rightarrow> string \<Rightarrow> bool" where
  "IsErrorCode err code =
     (case err of
        None \<Rightarrow> False
      | Some errStr \<Rightarrow> length errStr > length code \<and> take (length code) errStr = code)"

fun colonIdx :: "nat \<Rightarrow> string \<Rightarrow> int" where
  "colonIdx i [] = - 1"
| "colonIdx i (r # rs) = (if r = CHR '':'' then int i else colonIdx (Suc i) rs)"

definition GetErrorCode :: "string option \<Rightarrow> string" where
  "GetErrorCode err =
     (case err of
        None \<Rightarrow> []
      | Some errStr \<Rightarrow>
          (let c = colonIdx 0 errStr
           in if c = - 1 then [] else take (nat c) errStr))"

definition GetErrorMessage :: "string option \<Rightarrow> string" where
  "GetErrorMessage err =
     (case err of
        None \<Rightarrow> []
      | Some errStr \<Rightarrow>
          (let c = colonIdx 0 errStr
           in if c = - 1 then errStr
              else if c + 2 < int (length errStr) then drop (nat (c + 2)) errStr
              else []))"

section \<open>Queries and statements\<close>

text \<open>
  Each function below is one SQL statement of the service, read off the statement's text.
  Failures of the storage itself (a lost connection, a failed \<^verbatim>\<open>Begin\<close> or
  \<^verbatim>\<open>Commit\<close>, a value that does not fit its column) are outside the model: a
  statement that respects the schema and whose arguments reach the server executes. The
  primary keys of the schema and the binding of statement parameters are inside it. The
  foreign keys are not checked by the statements below, because each value written to a
  referencing column was read from the referenced table, or inserted there, earlier in
  the same transaction.
  An operation that returns an error before its \<^verbatim>\<open>Commit\<close> rolls its transaction
  back: it returns the database it was given.
\<close>

definition team_exists :: "db \<Rightarrow> string \<Rightarrow> bool" where
  \<comment> \<open>\<^verbatim>\<open>SELECT EXISTS(SELECT 1 FROM teams WHERE team_name = $1)\<close>\<close>
  "team_exists d name = (name \<in> set (teams d))"

definition pr_exists :: "db \<Rightarrow> string \<Rightarrow> bool" where
  \<comment> \<open>\<^verbatim>\<open>SELECT EXISTS(SELECT 1 FROM pull_requests WHERE pull_request_id = $1)\<close>\<close>
  "pr_exists d prID = (prID \<in> set (map pull_request_id (pull_requests d)))"

definition find_user :: "db \<Rightarrow> string \<Rightarrow> user_row option" where
  \<comment> \<open>\<^verbatim>\<open>QueryRow("SELECT ... FROM users WHERE user_id = $1")\<close>; \<open>None\<close> is \<^verbatim>\<open>sql.ErrNoRows\<close>\<close>
  "find_user d userID = find (\<lambda>u. user_id u = userID) (users d)"

definition find_pr :: "db \<Rightarrow> string \<Rightarrow> pr_row option" where
  \<comment> \<open>\<^verbatim>\<open>QueryRow("SELECT ... FROM pull_requests WHERE pull_request_id = $1")\<close>\<close>
  "find_pr d prID = find (\<lambda>p. pull_request_id p = prID) (pull_requests d)"

definition current_reviewers :: "db \<Rightarrow> string \<Rightarrow> string list" where
  \<comment> \<open>\<^verbatim>\<open>SELECT reviewer_id FROM pr_reviewers WHERE pull_request_id = $1\<close>\<close>
  "current_reviewers d prID = map snd (filter (\<lambda>r. fst r = prID) (pr_reviewers d))"

definition is_assigned :: "db \<Rightarrow> string \<Rightarrow> string \<Rightarrow> bool" where
  \<comment> \<open>\<^verbatim>\<open>SELECT EXISTS(SELECT 1 FROM pr_reviewers WHERE pull_request_id = $1 AND reviewer_id = $2)\<close>\<close>
  "is_assigned d prID userID = ((prID, userID) \<in> set (pr_reviewers d))"

definition team_candidates :: "db \<Rightarrow> string \<Rightarrow> string \<Rightarrow> string list" where
  \<comment> \<open>\<^verbatim>\<open>SELECT user_id FROM users WHERE team_name = $1 AND is_active = true AND user_id != $2 ORDER BY user_id\<close>\<close>
  "team_candidates d teamName authorID =
     sort (map user_id
       (filter (\<lambda>u. team_name u = teamName \<and> is_active u \<and> user_id u \<noteq> authorID) (users d)))"

fun upsert_user :: "user_row \<Rightarrow> user_row list \<Rightarrow> user_row list" where
  \<comment> \<open>\<^verbatim>\<open>INSERT INTO users ... ON CONFLICT (user_id) DO UPDATE SET username = EXCLUDED.username, team_name = EXCLUDED.team_name, is_active = EXCLUDED.is_active\<close>\<close>
  "upsert_user new [] = [new]"
| "upsert_user new (u # us) =
     (if user_id u = user_id new
      then u\<lparr>username := username new, team_name := team_name new, is_active := is_active new\<rparr> # us
      else u # upsert_user new us)"

fun insert_reviewers :: "string \<Rightarrow> string list \<Rightarrow> (string \<times> string) list \<Rightarrow> (string \<times> string) list option" where
  \<comment> \<open>the loop of \<^verbatim>\<open>INSERT INTO pr_reviewers (pull_request_id, reviewer_id) VALUES ($1, $2)\<close>;
      \<open>None\<close> when an insert violates the primary key\<close>
  "insert_reviewers prID [] rows = Some rows"
| "insert_reviewers prID (reviewerID # rest) rows =
     (if (prID, reviewerID) \<in> set rows then None
      else insert_reviewers prID rest (rows @ [(prID, reviewerID)]))"

text \<open>
  A statement with numbered parameters executes only if the parameters it mentions are
  exactly \<^verbatim>\<open>$1 ... $n\<close>, \<open>n\<close> the number of arguments given; \<^verbatim>\<open>$k\<close> then stands
  for the \<open>k\<close>-th argument. Every statement of the service but one is a constant text
  whose arguments match it; the one built at run time is the candidate query of
  \<^verbatim>\<open>ReassignReviewer\<close>, and for it the check is part of the model: the text of
  that query is given by the list \<open>extra\<close> of the parameter numbers appended to it.
\<close>

definition stmt_ok :: "nat list \<Rightarrow> 'a list \<Rightarrow> bool" where
  "stmt_ok refs args = (set refs = {1..length args})"

definition param :: "'a list \<Rightarrow> nat \<Rightarrow> 'a" where
  "param args k = args ! (k - 1)"

definition replacement_candidates :: "db \<Rightarrow> nat list \<Rightarrow> string list \<Rightarrow> string list option" where
  \<comment> \<open>\<^verbatim>\<open>SELECT user_id FROM users WHERE team_name = $1 AND is_active = true AND user_id != $2\<close>,
      then \<^verbatim>\<open>AND user_id != $k\<close> for each \<open>k\<close> of \<open>extra\<close>, then \<^verbatim>\<open>ORDER BY user_id\<close>;
      \<open>None\<close> when the statement does not execute\<close>
  "replacement_candidates d extra args =
     (if \<not> stmt_ok ([1, 2] @ extra) args then None
      else Some (sort (map user_id
        (filter (\<lambda>u. team_name u = param args 1 \<and> is_active u \<and> user_id u \<noteq> param args 2 \<and>
                      (\<forall>k \<in> set extra. user_id u \<noteq> param args k))
           (users d)))))"

definition open_inactive_pairs :: "db \<Rightarrow> string list \<Rightarrow> (string \<times> string \<times> string) list" where
  \<comment> \<open>\<^verbatim>\<open>SELECT DISTINCT pr.pull_request_id, prr.reviewer_id, u.team_name FROM pull_requests pr
      INNER JOIN pr_reviewers prr ON pr.pull_request_id = prr.pull_request_id
      INNER JOIN users u ON prr.reviewer_id = u.user_id
      WHERE pr.status = 'OPEN' AND prr.reviewer_id = ANY($1) AND u.is_active = false\<close>\<close>
  "open_inactive_pairs d deactivatedUserIDs =
     remdups
       (map (\<lambda>(pr, prr, u). (pull_request_id pr, snd prr, team_name u))
          (filter (\<lambda>(pr, prr, u).
                     pull_request_id pr = fst prr \<and> snd prr = user_id u \<and>
                     status pr = ''OPEN'' \<and> snd prr \<in> set deactivatedUserIDs \<and> \<not> is_active u)
             (List.product (pull_requests d) (List.product (pr_reviewers d) (users d)))))"

text \<open>
  \<^verbatim>\<open>SafeReassignOpenPRs\<close> passes the list of ids to \<^verbatim>\<open>Query\<close> as a bare Go slice.
  \<^verbatim>\<open>database/sql\<close> sends an argument only once it is a driver value; a slice of
  strings is none, and \<^verbatim>\<open>Query\<close> returns an error before any SQL is sent, unless the
  driver converts slices itself. The driver is \<^verbatim>\<open>lib/pq\<close> (imported by
  \<^verbatim>\<open>database.go\<close>), in a version the sources of the service do not fix, so this is
  a parameter of the model: \<open>slices\<close> is true for a driver that turns a slice of
  strings into an array, and false for one that does not. \<^verbatim>\<open>lib/pq\<close> 1.10 does not:
  with it \<open>slices\<close> is false and the query fails on every call.
\<close>

definition open_inactive_pairs_query ::
    "bool \<Rightarrow> db \<Rightarrow> string list \<Rightarrow> (string \<times> string \<times> string) list option" where
  \<comment> \<open>\<^verbatim>\<open>s.db.Query(query, deactivatedUserIDs)\<close> and the scan of its rows; \<open>None\<close> is the
      error of \<^verbatim>\<open>Query\<close>\<close>
  "open_inactive_pairs_query slices d deactivatedUserIDs =
     (if slices then Some (open_inactive_pairs d deactivatedUserIDs) else None)"

section \<open>The random source\<close>

text \<open>
  \<^verbatim>\<open>math/rand\<close> is a library, so what it returns is an input of the model.
  \<^verbatim>\<open>rand.Intn(n)\<close> returns a number below \<open>n\<close>: the generator is a stream of raw
  draws, and \<open>Intn\<close> reduces the next draw below \<open>n\<close>, so that every stream gives a
  result in range and every result in range comes from some stream. The service calls
  it with \<open>n > 0\<close> only.
  \<^verbatim>\<open>rand.Shuffle(n, swap)\<close> calls \<open>swap\<close> on pairs of indices below \<open>n\<close>, and
  \<^verbatim>\<open>rand.Perm(n)\<close> returns a permutation of \<open>0, ..., n - 1\<close>, that is \<open>n\<close>
  distinct numbers below \<open>n\<close>: the pairs and the permutation are arguments of the
  model, and the two predicates below say what the library promises about them.
\<close>

type_synonym rng = "nat \<Rightarrow> nat"

definition Intn :: "rng \<Rightarrow> nat \<Rightarrow> nat \<times> rng" where
  "Intn g n = (g 0 mod n, \<lambda>i. g (Suc i))"

definition Shuffle_ok :: "nat \<Rightarrow> (nat \<times> nat) list \<Rightarrow> bool" where
  "Shuffle_ok n swaps = (\<forall>(i, j) \<in> set swaps. i < n \<and> j < n)"

definition Perm_ok :: "nat \<Rightarrow> nat list \<Rightarrow> bool" where
  "Perm_ok n indices = (length indices = n \<and> distinct indices \<and> (\<forall>i \<in> set indices. i < n))"

section \<open>The service\<close>

definition CreateTeam_members :: "string \<Rightarrow> TeamMember list \<Rightarrow> user_row list \<Rightarrow> user_row list" where
  \<comment> \<open>\<^verbatim>\<open>for _, member := range team.Members\<close>\<close>
  "CreateTeam_members teamName members us =
     foldl (\<lambda>us member.
              upsert_user \<lparr>user_id = UserID member, username = Username member,
                           team_name = teamName, is_active = IsActive member\<rparr> us)
       us members"

definition CreateTeam :: "db \<Rightarrow> Team \<Rightarrow> error option \<times> db" where
  "CreateTeam d team =
     (if team_exists d (TeamName team)
      then (Some (Errorf ''TEAM_EXISTS: team_name already exists''), d)
      else (None, d\<lparr>teams := teams d @ [TeamName team],
                     users := CreateTeam_members (TeamName team) (Members team) (users d)\<rparr>))"

definition GetPullRequest :: "db \<Rightarrow> string \<Rightarrow> error + PullRequest" where
  "GetPullRequest d prID =
     (case find_pr d prID of
        None \<Rightarrow> Inl (Errorf ''NOT_FOUND: PR not found'')
      | Some p \<Rightarrow>
          Inr \<lparr>PullRequestID = pull_request_id p, PullRequestName = pull_request_name p,
               AuthorID = author_id p, Status = status p,
               AssignedReviewers = sort (current_reviewers d prID),
               CreatedAt = created_at p, MergedAt = merged_at p\<rparr>)"

definition swap :: "nat \<Rightarrow> nat \<Rightarrow> 'a list \<Rightarrow> 'a list" where
  \<comment> \<open>\<^verbatim>\<open>shuffled[i], shuffled[j] = shuffled[j], shuffled[i]\<close>\<close>
  "swap i j shuffled = shuffled[i := shuffled ! j, j := shuffled ! i]"

definition selectRandomReviewers ::
    "(nat \<times> nat) list \<Rightarrow> nat list \<Rightarrow> string list \<Rightarrow> nat \<Rightarrow> string list" where
  \<comment> \<open>\<open>swaps\<close>: the calls \<^verbatim>\<open>rand.Shuffle\<close> makes; \<open>indices\<close>: what \<^verbatim>\<open>rand.Perm\<close> returns\<close>
  "selectRandomReviewers swaps indices candidates n =
     (if length candidates = 0 then []
      else if length candidates \<le> n
      then foldl (\<lambda>shuffled (i, j). swap i j shuffled) candidates swaps
      else map (\<lambda>i. candidates ! (indices ! i)) [0..<min n (length indices)])"

definition CreatePullRequest ::
    "(nat \<times> nat) list \<Rightarrow> nat list \<Rightarrow> nat \<Rightarrow> db \<Rightarrow> string \<Rightarrow> string \<Rightarrow> string
       \<Rightarrow> (error + PullRequest) \<times> db" where
  "CreatePullRequest swaps indices now d prID prName authorID =
     (if pr_exists d prID then (Inl (Errorf ''PR_EXISTS: PR id already exists''), d)
      else case find_user d authorID of
        None \<Rightarrow> (Inl (Errorf ''NOT_FOUND: author not found''), d)
      | Some author \<Rightarrow>
          (let teamName = team_name author;
               d1 = d\<lparr>pull_requests := pull_requests d @
                      [\<lparr>pull_request_id = prID, pull_request_name = prName,
                        author_id = authorID, status = StatusOpen,
                        created_at = Some now, merged_at = None\<rparr>]\<rparr>;
               candidates = team_candidates d1 teamName authorID;
               reviewers = selectRandomReviewers swaps indices candidates 2
           in case insert_reviewers prID reviewers (pr_reviewers d1) of
                None \<Rightarrow> (Inl DriverError, d)
              | Some rows \<Rightarrow>
                  (let d2 = d1\<lparr>pr_reviewers := rows\<rparr> in (GetPullRequest d2 prID, d2))))"

definition MergePullRequest :: "nat \<Rightarrow> db \<Rightarrow> string \<Rightarrow> (error + PullRequest) \<times> db" where
  "MergePullRequest now d prID =
     (case find_pr d prID of
        None \<Rightarrow> (Inl (Errorf ''NOT_FOUND: PR not found''), d)
      | Some p \<Rightarrow>
          if status p = StatusMerged then (GetPullRequest d prID, d)
          else
            (let d' = d\<lparr>pull_requests :=
                         map (\<lambda>q. if pull_request_id q = prID
                                  then q\<lparr>status := StatusMerged, merged_at := Some now\<rparr> else q)
                           (pull_requests d)\<rparr>
             in (GetPullRequest d' prID, d')))"

fun exclusions :: "nat \<Rightarrow> string list \<Rightarrow> string \<Rightarrow> (nat \<times> string) list" where
  \<comment> \<open>\<^verbatim>\<open>for i, reviewerID := range currentReviewers\<close>: each round that passes the test
      appends the parameter number \<open>i + 3\<close> to the query and \<open>reviewerID\<close> to \<open>args\<close>\<close>
  "exclusions i [] oldUserID = []"
| "exclusions i (reviewerID # rest) oldUserID =
     (if reviewerID \<noteq> oldUserID
      then (i + 3, reviewerID) # exclusions (Suc i) rest oldUserID
      else exclusions (Suc i) rest oldUserID)"

definition replace_reviewer ::
    "string \<Rightarrow> string \<Rightarrow> string \<Rightarrow> (string \<times> string) list \<Rightarrow> (string \<times> string) list option" where
  \<comment> \<open>\<^verbatim>\<open>UPDATE pr_reviewers SET reviewer_id = $1 WHERE pull_request_id = $2 AND reviewer_id = $3\<close>;
      \<open>None\<close> when the new row violates the primary key\<close>
  "replace_reviewer newReviewerID prID oldUserID rows =
     (if newReviewerID \<noteq> oldUserID \<and> (prID, oldUserID) \<in> set rows \<and> (prID, newReviewerID) \<in> set rows
      then None
      else Some (map (\<lambda>r. if r = (prID, oldUserID) then (prID, newReviewerID) else r) rows))"

definition ReassignReviewer ::
    "rng \<Rightarrow> db \<Rightarrow> string \<Rightarrow> string \<Rightarrow> (error + PullRequest \<times> string) \<times> db \<times> rng" where
  "ReassignReviewer g d prID oldUserID =
     (case find_pr d prID of
        None \<Rightarrow> (Inl (Errorf ''NOT_FOUND: PR not found''), d, g)
      | Some pr \<Rightarrow>
          if status pr = StatusMerged
          then (Inl (Errorf ''PR_MERGED: cannot reassign on merged PR''), d, g)
          else if \<not> is_assigned d prID oldUserID
          then (Inl (Errorf ''NOT_ASSIGNED: reviewer is not assigned to this PR''), d, g)
          else case find_user d oldUserID of
            None \<Rightarrow> (Inl (Errorf ''NOT_FOUND: old reviewer not found''), d, g)
          | Some old \<Rightarrow>
              (let teamName = team_name old;
                   currentReviewers = current_reviewers d prID;
                   excl = exclusions 0 currentReviewers oldUserID
               in case replacement_candidates d (map fst excl)
                         ([teamName, oldUserID] @ map snd excl) of
                    None \<Rightarrow> (Inl DriverError, d, g)
                  | Some candidates \<Rightarrow>
                      if length candidates = 0
                      then (Inl (Errorf ''NO_CANDIDATE: no active replacement candidate in team''), d, g)
                      else
                        (let (k, g') = Intn g (length candidates);
                             newReviewerID = candidates ! k
                         in case replace_reviewer newReviewerID prID oldUserID (pr_reviewers d) of
                              None \<Rightarrow> (Inl DriverError, d, g')
                            | Some rows \<Rightarrow>
                                (let d' = d\<lparr>pr_reviewers := rows\<rparr>
                                 in case GetPullRequest d' prID of
                                      Inl e \<Rightarrow> (Inl e, d', g')
                                    | Inr updatedPR \<Rightarrow> (Inr (updatedPR, newReviewerID), d', g')))))"

fun BulkDeactivateUsers_loop :: "string \<Rightarrow> string list \<Rightarrow> user_row list \<Rightarrow> user_row list" where
  \<comment> \<open>\<^verbatim>\<open>for _, userID := range userIDs\<close>\<close>
  "BulkDeactivateUsers_loop teamName [] us = us"
| "BulkDeactivateUsers_loop teamName (userID # rest) us =
     (case find (\<lambda>u. user_id u = userID) us of
        None \<Rightarrow> BulkDeactivateUsers_loop teamName rest us
      | Some u \<Rightarrow>
          if team_name u \<noteq> teamName then BulkDeactivateUsers_loop teamName rest us
          else BulkDeactivateUsers_loop teamName rest
                 (map (\<lambda>x. if user_id x = userID then x\<lparr>is_active := False\<rparr> else x) us))"

definition BulkDeactivateUsers :: "db \<Rightarrow> string \<Rightarrow> string list \<Rightarrow> error option \<times> db" where
  "BulkDeactivateUsers d teamName userIDs =
     (if \<not> team_exists d teamName then (Some (Errorf ''NOT_FOUND: team not found''), d)
      else (None, d\<lparr>users := BulkDeactivateUsers_loop teamName userIDs (users d)\<rparr>))"

text \<open>
  An entry of \<^verbatim>\<open>toReassign\<close> is the triple \<^verbatim>\<open>(prID, oldID, teamName)\<close> of the local
  struct \<^verbatim>\<open>reassignInfo\<close>.
\<close>

fun SafeReassignOpenPRs_loop ::
    "rng \<Rightarrow> db \<Rightarrow> (string \<times> string \<times> string) list \<Rightarrow> nat \<Rightarrow> nat \<times> db \<times> rng" where
  \<comment> \<open>\<^verbatim>\<open>for _, info := range toReassign\<close>\<close>
  "SafeReassignOpenPRs_loop g d [] reassignedCount = (reassignedCount, d, g)"
| "SafeReassignOpenPRs_loop g d (info # rest) reassignedCount =
     (case ReassignReviewer g d (fst info) (fst (snd info)) of
        (Inr _, d', g') \<Rightarrow> SafeReassignOpenPRs_loop g' d' rest (reassignedCount + 1)
      | (Inl _, d', g') \<Rightarrow> SafeReassignOpenPRs_loop g' d' rest reassignedCount)"

text \<open>
  The result \<^verbatim>\<open>(int, error)\<close> is the pair of the count and \<open>None\<close> for \<^verbatim>\<open>nil\<close>.
\<close>

definition SafeReassignOpenPRs ::
    "bool \<Rightarrow> rng \<Rightarrow> db \<Rightarrow> string list \<Rightarrow> (nat \<times> error option) \<times> db \<times> rng" where
  "SafeReassignOpenPRs slices g d deactivatedUserIDs =
     (if length deactivatedUserIDs = 0 then ((0, None), d, g)
      else case open_inactive_pairs_query slices d deactivatedUserIDs of
        None \<Rightarrow> ((0, Some DriverError), d, g)
      | Some toReassign \<Rightarrow>
          (case SafeReassignOpenPRs_loop g d toReassign 0 of
             (reassignedCount, d', g') \<Rightarrow> ((reassignedCount, None), d', g')))"

section \<open>Well-formed databases\<close>

text \<open>
  The primary keys and foreign keys declared by \<^verbatim>\<open>RunMigrations\<close>: every database the
  storage engine can hold satisfies them.
\<close>

definition wf_db :: "db \<Rightarrow> bool" where
  "wf_db d =
     (distinct (teams d) \<and>
      distinct (map user_id (users d)) \<and>
      distinct (map pull_request_id (pull_requests d)) \<and>
      distinct (pr_reviewers d) \<and>
      (\<forall>u \<in> set (users d). team_name u \<in> set (teams d)) \<and>
      (\<forall>p \<in> set (pull_requests d). author_id p \<in> set (map user_id (users d))) \<and>
      (\<forall>r \<in> set (pr_reviewers d).
         fst r \<in> set (map pull_request_id (pull_requests d)) \<and>
         snd r \<in> set (map user_id (users d))))"

text \<open>
  A user id is inactive when no row of \<^verbatim>\<open>users\<close> with that id is active, and a row
  is deactivated by a call for a team and a set of ids when it is one of theirs.
\<close>

definition inactive :: "db \<Rightarrow> string \<Rightarrow> bool" where
  "inactive d userID = (\<forall>u \<in> set (users d). user_id u = userID \<longrightarrow> \<not> is_active u)"

definition deactivated :: "string \<Rightarrow> string set \<Rightarrow> user_row \<Rightarrow> user_row" where
  "deactivated teamName ids u =
     (if user_id u \<in> ids \<and> team_name u = teamName then u\<lparr>is_active := False\<rparr> else u)"

section \<open>Example databases\<close>

text \<open>
  The team of the repository's tests: \<^verbatim>\<open>backend\<close> with Alice (\<^verbatim>\<open>u1\<close>), Bob
  (\<^verbatim>\<open>u2\<close>) and Charlie (\<^verbatim>\<open>u3\<close>), and the pull request \<^verbatim>\<open>pr-1\<close> of Alice.
\<close>

definition backend_team :: Team where
  "backend_team =
     \<lparr>TeamName = ''backend'',
      Members = [\<lparr>UserID = ''u1'', Username = ''Alice'', IsActive = True\<rparr>,
                 \<lparr>UserID = ''u2'', Username = ''Bob'', IsActive = True\<rparr>,
                 \<lparr>UserID = ''u3'', Username = ''Charlie'', IsActive = True\<rparr>]\<rparr>"

definition backend_user :: "string \<Rightarrow> string \<Rightarrow> bool \<Rightarrow> user_row" where
  "backend_user userID name active =
     \<lparr>user_id = userID, username = name, team_name = ''backend'', is_active = active\<rparr>"

definition pr_1 :: "string \<Rightarrow> nat option \<Rightarrow> pr_row" where
  "pr_1 st merged =
     \<lparr>pull_request_id = ''pr-1'', pull_request_name = ''Test PR'', author_id = ''u1'',
      status = st, created_at = Some 1, merged_at = merged\<rparr>"

definition db_empty :: db where
  "db_empty = \<lparr>teams = [], users = [], pull_requests = [], pr_reviewers = []\<rparr>"

definition db_team :: db where
  "db_team =
     \<lparr>teams = [''backend''],
      users = [backend_user ''u1'' ''Alice'' True, backend_user ''u2'' ''Bob'' True,
               backend_user ''u3'' ''Charlie'' True],
      pull_requests = [], pr_reviewers = []\<rparr>"

definition db_team4 :: db where
  "db_team4 = db_team\<lparr>users := users db_team @ [backend_user ''u4'' ''Dana'' True]\<rparr>"

definition db_pr :: db where
  "db_pr = db_team\<lparr>pull_requests := [pr_1 ''OPEN'' None],
                    pr_reviewers := [(''pr-1'', ''u2''), (''pr-1'', ''u3'')]\<rparr>"

definition db_pr4 :: db where
  "db_pr4 = db_team4\<lparr>pull_requests := [pr_1 ''OPEN'' None],
                      pr_reviewers := [(''pr-1'', ''u2''), (''pr-1'', ''u3'')]\<rparr>"

definition db_merged :: db where
  "db_merged = db_pr\<lparr>pull_requests := [pr_1 ''MERGED'' (Some 2)]\<rparr>"

definition db_author_inactive :: db where
  "db_author_inactive =
     db_pr\<lparr>users := [backend_user ''u1'' ''Alice'' False, backend_user ''u2'' ''Bob'' True,
                      backend_user ''u3'' ''Charlie'' True]\<rparr>"

definition db_reviewers_inactive :: db where
  "db_reviewers_inactive =
     db_pr\<lparr>users := [backend_user ''u1'' ''Alice'' True, backend_user ''u2'' ''Bob'' False,
                      backend_user ''u3'' ''Charlie'' False]\<rparr>"

section \<open>Properties of the error helpers\<close>

lemma colonIdx_append:
  "CHR '':'' \<notin> set code \<Longrightarrow> colonIdx i (code @ CHR '':'' # rest) = int (i + length code)"
  by (induction code arbitrary: i) auto

text \<open>
  Claim C10. For an error whose text is \<open>CODE: message\<close>, the code holding no colon (as
  the codes of the service do), \<open>GetErrorCode\<close> is \<open>CODE\<close> and \<open>GetErrorMessage\<close> is
  \<open>message\<close>; \<open>IsErrorCode\<close> of an error holds exactly when its text is strictly longer
  than the code and starts with it; for \<^verbatim>\<open>nil\<close> the three helpers give the empty
  string, the empty string and false.
\<close>

theorem error_helpers_parse:
  "CHR '':'' \<notin> set code \<Longrightarrow>
     GetErrorCode (Some (code @ '': '' @ message)) = code \<and>
     GetErrorMessage (Some (code @ '': '' @ message)) = message \<and>
     (IsErrorCode (Some errStr) c \<longleftrightarrow> length c < length errStr \<and> prefix c errStr) \<and>
     GetErrorCode None = [] \<and> GetErrorMessage None = [] \<and> \<not> IsErrorCode None c"
proof -
  assume nc: "CHR '':'' \<notin> set code"
  have idx: "colonIdx 0 (code @ CHR '':'' # CHR '' '' # message) = int (length code)"
    using colonIdx_append [OF nc, of 0 "CHR '' '' # message"] by simp
  have c: "GetErrorCode (Some (code @ '': '' @ message)) = code"
    by (simp add: GetErrorCode_def idx Let_def)
  have off: "nat (int (length code) + 2) = length code + 2"
    by simp
  have m: "GetErrorMessage (Some (code @ '': '' @ message)) = message"
    by (simp add: GetErrorMessage_def idx Let_def off del: nat_int_add)
  have i: "IsErrorCode (Some errStr) c \<longleftrightarrow> length c < length errStr \<and> prefix c errStr"
  proof -
    have "take (length c) errStr = c \<longleftrightarrow> prefix c errStr" if "length c < length errStr"
      using that by (metis append_eq_conv_conj prefix_def)
    then show ?thesis
      by (auto simp: IsErrorCode_def)
  qed
  show ?thesis
    using c m i by (simp add: GetErrorCode_def GetErrorMessage_def IsErrorCode_def)
qed

theorem error_helpers_parse_witness:
  "CHR '':'' \<notin> set ''TEAM_EXISTS'' \<and>
   GetErrorCode (Some ''TEAM_EXISTS: team_name already exists'') = ''TEAM_EXISTS'' \<and>
   GetErrorMessage (Some ''TEAM_EXISTS: team_name already exists'') = ''team_name already exists'' \<and>
   IsErrorCode (Some ''TEAM_EXISTS: team_name already exists'') ''TEAM_EXISTS''"
  using error_helpers_parse [of "''TEAM_EXISTS''" "''team_name already exists''"
      "''TEAM_EXISTS: team_name already exists''" "''TEAM_EXISTS''"]
  by simp

section \<open>Tables as lists\<close>

lemma find_None_key: "find (\<lambda>y. f y = k) xs = None \<longleftrightarrow> k \<notin> set (map f xs)"
  by (induction xs) auto

lemma find_Some_key: "find (\<lambda>y. f y = k) xs = Some x \<Longrightarrow> x \<in> set xs \<and> f x = k"
  by (induction xs) (auto split: if_splits)

lemma find_key_distinct:
  "distinct (map f xs) \<Longrightarrow> x \<in> set xs \<Longrightarrow> find (\<lambda>y. f y = f x) xs = Some x"
  by (induction xs) (auto simp: rev_image_eqI)

lemma find_map_preserve:
  "(\<And>x. P (f x) = P x) \<Longrightarrow> find P (map f xs) = map_option f (find P xs)"
  by (induction xs) auto

lemma find_append_cases:
  "find P (xs @ ys) = (case find P xs of Some x \<Rightarrow> Some x | None \<Rightarrow> find P ys)"
  by (induction xs) auto

section \<open>CreateTeam\<close>

lemma find_upsert_user:
  "find (\<lambda>u. user_id u = k) (upsert_user new us) =
     (if k = user_id new then Some new else find (\<lambda>u. user_id u = k) us)"
  by (induction us) auto

lemma find_CreateTeam_members:
  "find (\<lambda>u. user_id u = k) (CreateTeam_members teamName members us) =
     (case find (\<lambda>m. UserID m = k) (rev members) of
        Some m \<Rightarrow> Some \<lparr>user_id = k, username = Username m, team_name = teamName,
                        is_active = IsActive m\<rparr>
      | None \<Rightarrow> find (\<lambda>u. user_id u = k) us)"
proof (induction members arbitrary: us)
  case Nil
  then show ?case by (simp add: CreateTeam_members_def)
next
  case (Cons m ms)
  have step: "CreateTeam_members teamName (m # ms) us =
              CreateTeam_members teamName ms
                (upsert_user \<lparr>user_id = UserID m, username = Username m, team_name = teamName,
                              is_active = IsActive m\<rparr> us)"
    by (simp add: CreateTeam_members_def)
  show ?case
    unfolding step Cons.IH
    by (auto simp: find_upsert_user find_append_cases split: option.splits dest: find_Some_key)
qed

text \<open>
  Claim C8. \<open>CreateTeam\<close> on a registered name returns \<^verbatim>\<open>TEAM_EXISTS\<close> and the
  database it was given. On a new name it returns no error, appends the team, leaves
  pull requests and assignments alone, and afterwards the row of a user id is: for an id
  listed in the members (the last member with that id, should it be listed twice), the
  member's name and active flag with the new team as its team, whatever the row was
  before (so a user of another team is moved); for an id not listed, the row it had.
\<close>

theorem CreateTeam_effect:
  "(team_exists d (TeamName team) \<longrightarrow>
      CreateTeam d team = (Some (Errorf ''TEAM_EXISTS: team_name already exists''), d)) \<and>
   (\<not> team_exists d (TeamName team) \<longrightarrow>
      (\<exists>d'. CreateTeam d team = (None, d') \<and>
            teams d' = teams d @ [TeamName team] \<and>
            pull_requests d' = pull_requests d \<and>
            pr_reviewers d' = pr_reviewers d \<and>
            (\<forall>userID. find_user d' userID =
               (case find (\<lambda>m. UserID m = userID) (rev (Members team)) of
                  Some m \<Rightarrow> Some \<lparr>user_id = userID, username = Username m,
                                  team_name = TeamName team, is_active = IsActive m\<rparr>
                | None \<Rightarrow> find_user d userID))))"
  by (auto simp: CreateTeam_def find_user_def find_CreateTeam_members split: option.splits)

theorem CreateTeam_effect_witness:
  "\<not> team_exists db_empty (TeamName backend_team) \<and>
   team_exists db_team (TeamName backend_team) \<and>
   CreateTeam db_empty backend_team = (None, db_team) \<and>
   CreateTeam db_team backend_team =
     (Some (Errorf ''TEAM_EXISTS: team_name already exists''), db_team) \<and>
   find_user db_team ''u3'' = Some (backend_user ''u3'' ''Charlie'' True) \<and>
   CreateTeam db_team
     \<lparr>TeamName = ''frontend'',
      Members = [\<lparr>UserID = ''u3'', Username = ''Charles'', IsActive = False\<rparr>]\<rparr> =
     (None, db_team\<lparr>teams := [''backend'', ''frontend''],
                    users := [backend_user ''u1'' ''Alice'' True, backend_user ''u2'' ''Bob'' True,
                              \<lparr>user_id = ''u3'', username = ''Charles'',
                               team_name = ''frontend'', is_active = False\<rparr>]\<rparr>)"
  using CreateTeam_effect [of db_empty backend_team] CreateTeam_effect [of db_team backend_team]
    CreateTeam_effect [of db_team "\<lparr>TeamName = ''frontend'',
      Members = [\<lparr>UserID = ''u3'', Username = ''Charles'', IsActive = False\<rparr>]\<rparr>"]
  by (simp add: backend_team_def backend_user_def db_empty_def db_team_def team_exists_def
      find_user_def CreateTeam_def CreateTeam_members_def)

section \<open>CreatePullRequest\<close>

lemma swap_props:
  "i < length xs \<Longrightarrow> j < length xs \<Longrightarrow>
     length (swap i j xs) = length xs \<and> set (swap i j xs) = set xs \<and>
     distinct (swap i j xs) = distinct xs"
  unfolding swap_def by (simp add: set_swap distinct_swap)

lemma shuffle_props:
  "Shuffle_ok (length xs) swaps \<Longrightarrow>
     length (foldl (\<lambda>shuffled (i, j). swap i j shuffled) xs swaps) = length xs \<and>
     set (foldl (\<lambda>shuffled (i, j). swap i j shuffled) xs swaps) = set xs \<and>
     distinct (foldl (\<lambda>shuffled (i, j). swap i j shuffled) xs swaps) = distinct xs"
proof (induction swaps arbitrary: xs)
  case Nil
  then show ?case by simp
next
  case (Cons s swaps)
  obtain i j where s: "s = (i, j)" by (cases s)
  have ij: "i < length xs" "j < length xs"
    using Cons.prems by (simp_all add: Shuffle_ok_def s)
  have "Shuffle_ok (length (swap i j xs)) swaps"
    using Cons.prems ij by (simp add: Shuffle_ok_def swap_props)
  from Cons.IH [OF this] show ?case
    using ij by (simp add: s swap_props)
qed

lemma perm_pick_props:
  assumes "Perm_ok (length xs) indices" and "distinct xs" and "n \<le> length xs"
  shows "distinct (map (\<lambda>i. xs ! (indices ! i)) [0..<n]) \<and>
         set (map (\<lambda>i. xs ! (indices ! i)) [0..<n]) \<subseteq> set xs"
proof -
  have len: "length indices = length xs" and dist: "distinct indices"
    using assms(1) by (simp_all add: Perm_ok_def)
  have rng: "indices ! i < length xs" if "i < n" for i
  proof -
    have "indices ! i \<in> set indices"
      using that assms(3) len by simp
    then show ?thesis
      using assms(1) by (simp add: Perm_ok_def)
  qed
  have "inj_on (\<lambda>i. xs ! (indices ! i)) (set [0..<n])"
  proof (rule inj_onI)
    fix a b
    assume a: "a \<in> set [0..<n]" and b: "b \<in> set [0..<n]"
      and eq: "xs ! (indices ! a) = xs ! (indices ! b)"
    have "indices ! a = indices ! b"
      using eq a b rng assms(2) by (simp add: nth_eq_iff_index_eq)
    then show "a = b"
      using a b dist len assms(3) by (simp add: nth_eq_iff_index_eq)
  qed
  then have "distinct (map (\<lambda>i. xs ! (indices ! i)) [0..<n])"
    by (simp add: distinct_map)
  moreover have "set (map (\<lambda>i. xs ! (indices ! i)) [0..<n]) \<subseteq> set xs"
    using rng by auto
  ultimately show ?thesis by simp
qed

lemma selectRandomReviewers_props:
  assumes "distinct candidates"
    and "Shuffle_ok (length candidates) swaps" and "Perm_ok (length candidates) indices"
  shows "distinct (selectRandomReviewers swaps indices candidates n) \<and>
         set (selectRandomReviewers swaps indices candidates n) \<subseteq> set candidates \<and>
         length (selectRandomReviewers swaps indices candidates n) = min n (length candidates)"
proof (cases "length candidates \<le> n")
  case True
  then show ?thesis
    using shuffle_props [OF assms(2)] assms(1)
    by (auto simp: selectRandomReviewers_def)
next
  case False
  have len: "length indices = length candidates"
    using assms(3) by (simp add: Perm_ok_def)
  have m: "min n (length indices) = n"
    using False len by simp
  have "n \<le> length candidates"
    using False by simp
  from perm_pick_props [OF assms(3) assms(1) this] show ?thesis
    using False by (auto simp: selectRandomReviewers_def m)
qed

lemma insert_reviewers_Some:
  "distinct rs \<Longrightarrow> \<forall>r \<in> set rs. (prID, r) \<notin> set rows \<Longrightarrow>
     insert_reviewers prID rs rows = Some (rows @ map (Pair prID) rs)"
proof (induction rs arbitrary: rows)
  case Nil
  then show ?case by simp
next
  case (Cons a rs)
  have "distinct rs" and "\<forall>r \<in> set rs. (prID, r) \<notin> set (rows @ [(prID, a)])"
    using Cons.prems by auto
  then have "insert_reviewers prID rs (rows @ [(prID, a)]) =
               Some ((rows @ [(prID, a)]) @ map (Pair prID) rs)"
    by (rule Cons.IH)
  then show ?case
    using Cons.prems by simp
qed

lemma CreatePullRequest_success:
  assumes wf: "wf_db d"
    and author: "find_user d authorID = Some author"
    and fresh: "\<not> pr_exists d prID"
    and sh: "Shuffle_ok (length (team_candidates d (team_name author) authorID)) swaps"
    and pm: "Perm_ok (length (team_candidates d (team_name author) authorID)) indices"
  shows "\<exists>pr d'. CreatePullRequest swaps indices now d prID prName authorID = (Inr pr, d') \<and>
           AssignedReviewers pr =
             sort (selectRandomReviewers swaps indices (team_candidates d (team_name author) authorID) 2) \<and>
           current_reviewers d' prID =
             selectRandomReviewers swaps indices (team_candidates d (team_name author) authorID) 2 \<and>
           AuthorID pr = authorID"
proof -
  let ?row = "\<lparr>pull_request_id = prID, pull_request_name = prName, author_id = authorID,
               status = StatusOpen, created_at = Some now, merged_at = None\<rparr>"
  let ?d1 = "d\<lparr>pull_requests := pull_requests d @ [?row]\<rparr>"
  let ?cands = "team_candidates d (team_name author) authorID"
  let ?revs = "selectRandomReviewers swaps indices ?cands 2"
  let ?d2 = "?d1\<lparr>pr_reviewers := pr_reviewers d @ map (Pair prID) ?revs\<rparr>"
  have c1: "team_candidates ?d1 (team_name author) authorID = ?cands"
    by (simp add: team_candidates_def)
  have "distinct (map user_id (users d))"
    using wf by (simp add: wf_db_def)
  then have dc: "distinct ?cands"
    by (simp add: team_candidates_def distinct_map_filter)
  have dr: "distinct ?revs"
    using selectRandomReviewers_props [OF dc sh pm] by simp
  have norow: "(prID, r) \<notin> set (pr_reviewers d)" for r
  proof
    assume "(prID, r) \<in> set (pr_reviewers d)"
    then have "prID \<in> set (map pull_request_id (pull_requests d))"
      using wf by (fastforce simp: wf_db_def)
    then show False
      using fresh by (simp add: pr_exists_def)
  qed
  have ins: "insert_reviewers prID ?revs (pr_reviewers d) = Some (pr_reviewers d @ map (Pair prID) ?revs)"
    using dr norow by (simp add: insert_reviewers_Some)
  have "find (\<lambda>p. pull_request_id p = prID) (pull_requests d) = None"
    using fresh by (simp add: find_None_key pr_exists_def)
  then have fp: "find_pr ?d2 prID = Some ?row"
    by (simp add: find_pr_def find_append_cases)
  have "filter (\<lambda>r. fst r = prID) (pr_reviewers d) = []"
    using norow by (auto simp: filter_empty_conv)
  then have cr: "current_reviewers ?d2 prID = ?revs"
    by (simp add: current_reviewers_def comp_def)
  have "CreatePullRequest swaps indices now d prID prName authorID = (GetPullRequest ?d2 prID, ?d2)"
    using fresh author ins by (simp add: CreatePullRequest_def Let_def c1)
  then show ?thesis
    using fp cr by (simp add: GetPullRequest_def)
qed

lemma CreatePullRequest_Inr_fresh:
  "CreatePullRequest swaps indices now d prID prName authorID = (Inr pr, d') \<Longrightarrow> \<not> pr_exists d prID"
  by (auto simp: CreatePullRequest_def)

text \<open>
  Claim C1. Let the pool be the active users of the author's team other than the author.
  On a well-formed database, with \<^verbatim>\<open>rand.Shuffle\<close> and \<^verbatim>\<open>rand.Perm\<close> keeping
  their promise, every call of \<open>CreatePullRequest\<close> that succeeds returns reviewers
  that are ids of the pool (so never the author), \<open>min 2 |pool|\<close> of them, without
  duplicates, and these are the reviewers stored for the new pull request; with an
  empty pool and a fresh id the call succeeds with no reviewer.
\<close>

theorem CreatePullRequest_reviewers:
  fixes d :: db and author :: user_row and authorID :: string
  defines "pool \<equiv> filter (\<lambda>u. team_name u = team_name author \<and> is_active u \<and> user_id u \<noteq> authorID) (users d)"
  assumes wf: "wf_db d"
    and author: "find_user d authorID = Some author"
    and sh: "Shuffle_ok (length pool) swaps"
    and pm: "Perm_ok (length pool) indices"
  shows "(\<forall>pr d'. CreatePullRequest swaps indices now d prID prName authorID = (Inr pr, d') \<longrightarrow>
            set (AssignedReviewers pr) \<subseteq> user_id ` set pool \<and>
            authorID \<notin> set (AssignedReviewers pr) \<and>
            length (AssignedReviewers pr) = min 2 (length pool) \<and>
            distinct (AssignedReviewers pr) \<and>
            set (current_reviewers d' prID) = set (AssignedReviewers pr) \<and>
            distinct (current_reviewers d' prID)) \<and>
         (pool = [] \<and> \<not> pr_exists d prID \<longrightarrow>
            (\<exists>pr d'. CreatePullRequest swaps indices now d prID prName authorID = (Inr pr, d') \<and>
                     AssignedReviewers pr = [] \<and> current_reviewers d' prID = []))"
proof -
  let ?cands = "team_candidates d (team_name author) authorID"
  let ?revs = "selectRandomReviewers swaps indices ?cands 2"
  have cl: "length ?cands = length pool" and cs: "set ?cands = user_id ` set pool"
    by (simp_all add: team_candidates_def pool_def)
  have "distinct (map user_id (users d))"
    using wf by (simp add: wf_db_def)
  then have dc: "distinct ?cands"
    by (simp add: team_candidates_def distinct_map_filter)
  have sh': "Shuffle_ok (length ?cands) swaps" and pm': "Perm_ok (length ?cands) indices"
    using sh pm cl by simp_all
  note sel = selectRandomReviewers_props [OF dc sh' pm', of 2]
  have succ: "\<exists>pr d'. CreatePullRequest swaps indices now d prID prName authorID = (Inr pr, d') \<and>
           AssignedReviewers pr = sort ?revs \<and> current_reviewers d' prID = ?revs \<and>
           AuthorID pr = authorID" if "\<not> pr_exists d prID"
    using CreatePullRequest_success [OF wf author that sh' pm'] .
  have na: "authorID \<notin> user_id ` set pool"
    by (auto simp: pool_def)
  have part1: "set (AssignedReviewers pr) \<subseteq> user_id ` set pool \<and>
            authorID \<notin> set (AssignedReviewers pr) \<and>
            length (AssignedReviewers pr) = min 2 (length pool) \<and>
            distinct (AssignedReviewers pr) \<and>
            set (current_reviewers d' prID) = set (AssignedReviewers pr) \<and>
            distinct (current_reviewers d' prID)"
    if res: "CreatePullRequest swaps indices now d prID prName authorID = (Inr pr, d')" for pr d'
  proof -
    have "\<not> pr_exists d prID"
      using res by (rule CreatePullRequest_Inr_fresh)
    from succ [OF this] res have a: "AssignedReviewers pr = sort ?revs"
      and c: "current_reviewers d' prID = ?revs"
      by auto
    show ?thesis
      using sel na cs cl unfolding a c by auto
  qed
  have part2: "\<exists>pr d'. CreatePullRequest swaps indices now d prID prName authorID = (Inr pr, d') \<and>
                     AssignedReviewers pr = [] \<and> current_reviewers d' prID = []"
    if "pool = []" "\<not> pr_exists d prID"
  proof -
    have "?revs = []"
      using sel cl that(1) by simp
    then show ?thesis
      using succ [OF that(2)] by auto
  qed
  show ?thesis
    using part1 part2 by blast
qed

theorem CreatePullRequest_reviewers_witness:
  "wf_db db_team4 \<and> find_user db_team4 ''u1'' = Some (backend_user ''u1'' ''Alice'' True) \<and>
   Shuffle_ok 3 [] \<and> Perm_ok 3 [2, 0, 1] \<and>
   CreatePullRequest [] [2, 0, 1] 7 db_team4 ''pr-1'' ''Test PR'' ''u1'' =
     (Inr \<lparr>PullRequestID = ''pr-1'', PullRequestName = ''Test PR'', AuthorID = ''u1'',
           Status = ''OPEN'', AssignedReviewers = [''u2'', ''u4''],
           CreatedAt = Some 7, MergedAt = None\<rparr>,
      db_team4\<lparr>pull_requests := [\<lparr>pull_request_id = ''pr-1'', pull_request_name = ''Test PR'',
                   author_id = ''u1'', status = ''OPEN'', created_at = Some 7, merged_at = None\<rparr>],
                pr_reviewers := [(''pr-1'', ''u4''), (''pr-1'', ''u2'')]\<rparr>) \<and>
   wf_db db_reviewers_inactive \<and>
   find_user db_reviewers_inactive ''u1'' = Some (backend_user ''u1'' ''Alice'' True) \<and>
   \<not> pr_exists db_reviewers_inactive ''pr-2'' \<and> Shuffle_ok 0 [] \<and> Perm_ok 0 [] \<and>
   fst (CreatePullRequest [] [] 9 db_reviewers_inactive ''pr-2'' ''Alone'' ''u1'') =
     Inr \<lparr>PullRequestID = ''pr-2'', PullRequestName = ''Alone'', AuthorID = ''u1'',
          Status = ''OPEN'', AssignedReviewers = [], CreatedAt = Some 9, MergedAt = None\<rparr>"
proof -
  have many: "wf_db db_team4 \<and> find_user db_team4 ''u1'' = Some (backend_user ''u1'' ''Alice'' True) \<and>
   Shuffle_ok 3 [] \<and> Perm_ok 3 [2, 0, 1] \<and>
   CreatePullRequest [] [2, 0, 1] 7 db_team4 ''pr-1'' ''Test PR'' ''u1'' =
     (Inr \<lparr>PullRequestID = ''pr-1'', PullRequestName = ''Test PR'', AuthorID = ''u1'',
           Status = ''OPEN'', AssignedReviewers = [''u2'', ''u4''],
           CreatedAt = Some 7, MergedAt = None\<rparr>,
      db_team4\<lparr>pull_requests := [\<lparr>pull_request_id = ''pr-1'', pull_request_name = ''Test PR'',
                   author_id = ''u1'', status = ''OPEN'', created_at = Some 7, merged_at = None\<rparr>],
                pr_reviewers := [(''pr-1'', ''u4''), (''pr-1'', ''u2'')]\<rparr>)"
    using CreatePullRequest_reviewers [where d = db_team4
        and author = "backend_user ''u1'' ''Alice'' True" and authorID = "''u1''"
        and swaps = "[]" and indices = "[2, 0, 1]" and now = 7
        and prID = "''pr-1''" and prName = "''Test PR''"]
    by (simp add: wf_db_def backend_user_def db_team_def db_team4_def pr_exists_def find_user_def
        find_pr_def current_reviewers_def team_candidates_def StatusOpen_def less_eq_char_def
        less_char_def Shuffle_ok_def Perm_ok_def CreatePullRequest_def selectRandomReviewers_def
        GetPullRequest_def Let_def)
  have none: "wf_db db_reviewers_inactive \<and>
   find_user db_reviewers_inactive ''u1'' = Some (backend_user ''u1'' ''Alice'' True) \<and>
   \<not> pr_exists db_reviewers_inactive ''pr-2'' \<and> Shuffle_ok 0 [] \<and> Perm_ok 0 [] \<and>
   fst (CreatePullRequest [] [] 9 db_reviewers_inactive ''pr-2'' ''Alone'' ''u1'') =
     Inr \<lparr>PullRequestID = ''pr-2'', PullRequestName = ''Alone'', AuthorID = ''u1'',
          Status = ''OPEN'', AssignedReviewers = [], CreatedAt = Some 9, MergedAt = None\<rparr>"
    using CreatePullRequest_reviewers [where d = db_reviewers_inactive
        and author = "backend_user ''u1'' ''Alice'' True" and authorID = "''u1''"
        and swaps = "[]" and indices = "[]" and now = 9
        and prID = "''pr-2''" and prName = "''Alone''"]
    by (simp add: wf_db_def backend_user_def pr_1_def db_team_def db_pr_def
        db_reviewers_inactive_def pr_exists_def find_user_def find_pr_def current_reviewers_def
        team_candidates_def StatusOpen_def Shuffle_ok_def Perm_ok_def CreatePullRequest_def
        selectRandomReviewers_def GetPullRequest_def Let_def)
  show ?thesis
    using many none by simp
qed

section \<open>MergePullRequest\<close>

text \<open>
  Claim C3. For a pull request that exists, \<open>MergePullRequest\<close> succeeds, and a second
  call (at any later instant) succeeds with the very same pull request and leaves the
  database of the first call as it is. The status returned is \<^verbatim>\<open>MERGED\<close>; the merge
  timestamp is the instant of the first call when the pull request was not merged
  before, and the stored one (the database untouched) when it was; it is the timestamp
  stored after either call.
\<close>

theorem MergePullRequest_idempotent:
  assumes "find_pr d prID = Some p"
  shows "\<exists>pr d1.
           MergePullRequest now1 d prID = (Inr pr, d1) \<and>
           MergePullRequest now2 d1 prID = (Inr pr, d1) \<and>
           Status pr = StatusMerged \<and>
           (if status p = StatusMerged then d1 = d \<and> MergedAt pr = merged_at p
            else MergedAt pr = Some now1) \<and>
           map_option merged_at (find_pr d1 prID) = Some (MergedAt pr) \<and>
           AssignedReviewers pr = sort (current_reviewers d prID) \<and>
           pr_reviewers d1 = pr_reviewers d"
proof (cases "status p = StatusMerged")
  case True
  then show ?thesis
    using assms by (simp add: MergePullRequest_def GetPullRequest_def)
next
  case False
  let ?upd = "\<lambda>q. if pull_request_id q = prID
                   then q\<lparr>status := StatusMerged, merged_at := Some now1\<rparr> else q"
  let ?d1 = "d\<lparr>pull_requests := map ?upd (pull_requests d)\<rparr>"
  have id: "pull_request_id p = prID"
    using assms find_Some_key [of pull_request_id prID "pull_requests d" p]
    by (simp add: find_pr_def)
  have "find_pr ?d1 prID = map_option ?upd (find_pr d prID)"
    unfolding find_pr_def by (simp add: find_map_preserve)
  then have f1: "find_pr ?d1 prID = Some (p\<lparr>status := StatusMerged, merged_at := Some now1\<rparr>)"
    using assms id by simp
  have r1: "current_reviewers ?d1 prID = current_reviewers d prID"
    by (simp add: current_reviewers_def)
  have m1: "MergePullRequest now1 d prID = (GetPullRequest ?d1 prID, ?d1)"
    using assms False by (simp add: MergePullRequest_def Let_def)
  have m2: "MergePullRequest now2 ?d1 prID = (GetPullRequest ?d1 prID, ?d1)"
    using f1 by (simp add: MergePullRequest_def)
  show ?thesis
    using False m1 m2 f1 r1 by (simp add: GetPullRequest_def)
qed

theorem MergePullRequest_idempotent_witness:
  "find_pr db_pr ''pr-1'' = Some (pr_1 ''OPEN'' None) \<and>
   MergePullRequest 2 db_pr ''pr-1'' =
     (Inr \<lparr>PullRequestID = ''pr-1'', PullRequestName = ''Test PR'', AuthorID = ''u1'',
           Status = ''MERGED'', AssignedReviewers = [''u2'', ''u3''],
           CreatedAt = Some 1, MergedAt = Some 2\<rparr>, db_merged) \<and>
   MergePullRequest 5 db_merged ''pr-1'' =
     (Inr \<lparr>PullRequestID = ''pr-1'', PullRequestName = ''Test PR'', AuthorID = ''u1'',
           Status = ''MERGED'', AssignedReviewers = [''u2'', ''u3''],
           CreatedAt = Some 1, MergedAt = Some 2\<rparr>, db_merged)"
  using MergePullRequest_idempotent [of db_pr "''pr-1''" "pr_1 ''OPEN'' None" 2 5]
  by (simp add: backend_user_def pr_1_def db_team_def db_pr_def db_merged_def find_pr_def
      current_reviewers_def StatusMerged_def less_eq_char_def less_char_def MergePullRequest_def
      GetPullRequest_def Let_def)

section \<open>ReassignReviewer\<close>

lemma exclusions_snd: "map snd (exclusions i rs old) = filter (\<lambda>r. r \<noteq> old) rs"
  by (induction rs arbitrary: i) auto

lemma stmt_ok_params:
  assumes ok: "stmt_ok ([1, 2] @ refs) ([t, old] @ as)"
    and ge: "\<forall>k \<in> set refs. 3 \<le> k"
  shows "param ([t, old] @ as) ` set refs = set as"
proof -
  have eq: "insert 1 (insert 2 (set refs)) = {1..length as + 2}"
    using ok by (simp add: stmt_ok_def)
  have refs: "k \<in> set refs \<longleftrightarrow> 3 \<le> k \<and> k \<le> length as + 2" for k
  proof
    assume k: "k \<in> set refs"
    then have "k \<in> {1..length as + 2}" using eq by blast
    then show "3 \<le> k \<and> k \<le> length as + 2" using ge k by simp
  next
    assume k: "3 \<le> k \<and> k \<le> length as + 2"
    then have "k \<in> {1..length as + 2}" by simp
    then have "k \<in> insert 1 (insert 2 (set refs))" using eq by simp
    then show "k \<in> set refs" using k by auto
  qed
  have p: "param ([t, old] @ as) k = as ! (k - 3)" if "3 \<le> k" for k
  proof -
    have "k - 1 = Suc (Suc (k - 3))" using that by arith
    then show ?thesis by (simp add: param_def)
  qed
  show ?thesis
  proof (rule set_eqI)
    fix x
    show "x \<in> param ([t, old] @ as) ` set refs \<longleftrightarrow> x \<in> set as"
    proof
      assume "x \<in> param ([t, old] @ as) ` set refs"
      then obtain k where k: "k \<in> set refs" "x = param ([t, old] @ as) k" by blast
      then have k3: "3 \<le> k" and "k \<le> length as + 2" using refs by simp_all
      then have "k - 3 < length as" by arith
      then show "x \<in> set as" using k(2) p [OF k3] by simp
    next
      assume "x \<in> set as"
      then obtain j where j: "j < length as" "x = as ! j" by (metis in_set_conv_nth)
      then have "j + 3 \<in> set refs" using refs [of "j + 3"] by simp
      moreover have "param ([t, old] @ as) (j + 3) = x" using j p [of "j + 3"] by simp
      ultimately show "x \<in> param ([t, old] @ as) ` set refs" by blast
    qed
  qed
qed

lemma exclusions_fst_ge3: "\<forall>k \<in> set (map fst (exclusions i rs old)). 3 \<le> k"
  by (induction rs arbitrary: i) auto

lemma replacement_candidates_Some:
  "replacement_candidates d extra args = Some cands \<Longrightarrow>
     stmt_ok ([1, 2] @ extra) args \<and>
     cands = sort (map user_id
        (filter (\<lambda>u. team_name u = param args 1 \<and> is_active u \<and> user_id u \<noteq> param args 2 \<and>
                      (\<forall>k \<in> set extra. user_id u \<noteq> param args k)) (users d)))"
  by (simp add: replacement_candidates_def split: if_splits)

lemma replacement_candidates_set:
  assumes "replacement_candidates d (map fst (exclusions 0 cur old))
             ([t, old] @ map snd (exclusions 0 cur old)) = Some cands"
  shows "set cands = {user_id u |u. u \<in> set (users d) \<and> team_name u = t \<and> is_active u \<and>
                        user_id u \<noteq> old \<and> user_id u \<notin> set cur}"
proof -
  define refs where "refs = map fst (exclusions 0 cur old)"
  define as where "as = map snd (exclusions 0 cur old)"
  define args where "args = [t, old] @ as"
  have as: "set as = set cur - {old}"
    by (auto simp: as_def exclusions_snd)
  from replacement_candidates_Some [OF assms]
  have ok: "stmt_ok ([1, 2] @ refs) ([t, old] @ as)"
    and c: "cands = sort (map user_id
        (filter (\<lambda>u. team_name u = param args 1 \<and> is_active u \<and> user_id u \<noteq> param args 2 \<and>
                      (\<forall>k \<in> set refs. user_id u \<noteq> param args k)) (users d)))"
    unfolding refs_def as_def args_def by blast+
  have ge: "\<forall>k \<in> set refs. 3 \<le> k"
    unfolding refs_def by (rule exclusions_fst_ge3)
  have img: "param args ` set refs = set as"
    unfolding args_def using ok ge by (rule stmt_ok_params)
  have ex: "(\<forall>k \<in> set refs. x \<noteq> param args k) \<longleftrightarrow> x \<notin> set cur - {old}" for x
  proof -
    have "(\<forall>k \<in> set refs. x \<noteq> param args k) \<longleftrightarrow> x \<notin> param args ` set refs"
      by blast
    then show ?thesis
      by (simp only: img as)
  qed
  have p1: "param args 1 = t" and p2: "param args 2 = old"
    by (simp_all add: param_def args_def)
  have "set cands = user_id ` {u \<in> set (users d). team_name u = t \<and> is_active u \<and> user_id u \<noteq> old \<and>
                      user_id u \<notin> set cur - {old}}"
    unfolding c ex p1 p2 by simp
  then show ?thesis by auto
qed

lemma replacement_candidates_pool:
  assumes "replacement_candidates d (map fst (exclusions 0 cur old))
             ([t, old] @ map snd (exclusions 0 cur old)) = Some cands"
  shows "cands = sort (map user_id
           (filter (\<lambda>u. team_name u = t \<and> is_active u \<and> user_id u \<notin> insert old (set cur))
              (users d)))"
proof -
  define refs where "refs = map fst (exclusions 0 cur old)"
  define as where "as = map snd (exclusions 0 cur old)"
  define args where "args = [t, old] @ as"
  have as: "set as = set cur - {old}"
    by (auto simp: as_def exclusions_snd)
  from replacement_candidates_Some [OF assms]
  have ok: "stmt_ok ([1, 2] @ refs) ([t, old] @ as)"
    and c: "cands = sort (map user_id
        (filter (\<lambda>u. team_name u = param args 1 \<and> is_active u \<and> user_id u \<noteq> param args 2 \<and>
                      (\<forall>k \<in> set refs. user_id u \<noteq> param args k)) (users d)))"
    unfolding refs_def as_def args_def by blast+
  have ge: "\<forall>k \<in> set refs. 3 \<le> k"
    unfolding refs_def by (rule exclusions_fst_ge3)
  have img: "param args ` set refs = set as"
    unfolding args_def using ok ge by (rule stmt_ok_params)
  have ex: "(\<forall>k \<in> set refs. x \<noteq> param args k) \<longleftrightarrow> x \<notin> set cur - {old}" for x
  proof -
    have "(\<forall>k \<in> set refs. x \<noteq> param args k) \<longleftrightarrow> x \<notin> param args ` set refs"
      by blast
    then show ?thesis
      by (simp only: img as)
  qed
  have p1: "param args 1 = t" and p2: "param args 2 = old"
    by (simp_all add: param_def args_def)
  have same: "(team_name u = t \<and> is_active u \<and> user_id u \<noteq> old \<and> user_id u \<notin> set cur - {old}) \<longleftrightarrow>
              (team_name u = t \<and> is_active u \<and> user_id u \<notin> insert old (set cur))" for u
    by auto
  show ?thesis
    unfolding c ex p1 p2 same ..
qed

lemma current_reviewers_replace:
  "current_reviewers (d\<lparr>pr_reviewers := map (\<lambda>r. if r = (prID, old) then (prID, new) else r) (pr_reviewers d)\<rparr>) q =
     (if q = prID then map (\<lambda>r. if r = old then new else r) (current_reviewers d q)
      else current_reviewers d q)"
proof -
  let ?f = "\<lambda>r. if r = (prID, old) then (prID, new) else r"
  have "map snd (filter (\<lambda>r. fst r = q) (map ?f rows)) =
        (if q = prID then map (\<lambda>r. if r = old then new else r) (map snd (filter (\<lambda>r. fst r = q) rows))
         else map snd (filter (\<lambda>r. fst r = q) rows))" for rows :: "(string \<times> string) list"
  proof (induction rows)
    case Nil
    then show ?case by simp
  next
    case (Cons r rows)
    obtain a b where r: "r = (a, b)" by (cases r)
    show ?case
      using Cons.IH by (cases "q = prID") (simp_all add: r)
  qed
  then show ?thesis
    by (simp add: current_reviewers_def)
qed

lemma ReassignReviewer_no_pr:
  "find_pr d prID = None \<Longrightarrow>
     ReassignReviewer g d prID oldUserID = (Inl (Errorf ''NOT_FOUND: PR not found''), d, g)"
  by (simp add: ReassignReviewer_def)

lemma ReassignReviewer_pr_merged:
  "find_pr d prID = Some p \<Longrightarrow> status p = StatusMerged \<Longrightarrow>
     ReassignReviewer g d prID oldUserID =
       (Inl (Errorf ''PR_MERGED: cannot reassign on merged PR''), d, g)"
  by (simp add: ReassignReviewer_def)

lemma ReassignReviewer_not_assigned:
  "find_pr d prID = Some p \<Longrightarrow> status p \<noteq> StatusMerged \<Longrightarrow> \<not> is_assigned d prID oldUserID \<Longrightarrow>
     ReassignReviewer g d prID oldUserID =
       (Inl (Errorf ''NOT_ASSIGNED: reviewer is not assigned to this PR''), d, g)"
  by (simp add: ReassignReviewer_def)

lemma ReassignReviewer_no_user:
  "find_pr d prID = Some p \<Longrightarrow> status p \<noteq> StatusMerged \<Longrightarrow> is_assigned d prID oldUserID \<Longrightarrow>
   find_user d oldUserID = None \<Longrightarrow>
     ReassignReviewer g d prID oldUserID =
       (Inl (Errorf ''NOT_FOUND: old reviewer not found''), d, g)"
  by (simp add: ReassignReviewer_def)

lemma ReassignReviewer_query:
  "find_pr d prID = Some p \<Longrightarrow> status p \<noteq> StatusMerged \<Longrightarrow> is_assigned d prID oldUserID \<Longrightarrow>
   find_user d oldUserID = Some old \<Longrightarrow>
     ReassignReviewer g d prID oldUserID =
       (case replacement_candidates d (map fst (exclusions 0 (current_reviewers d prID) oldUserID))
               ([team_name old, oldUserID] @ map snd (exclusions 0 (current_reviewers d prID) oldUserID)) of
          None \<Rightarrow> (Inl DriverError, d, g)
        | Some candidates \<Rightarrow>
            if candidates = []
            then (Inl (Errorf ''NO_CANDIDATE: no active replacement candidate in team''), d, g)
            else
              (case replace_reviewer (candidates ! (g 0 mod length candidates)) prID oldUserID (pr_reviewers d) of
                 None \<Rightarrow> (Inl DriverError, d, \<lambda>i. g (Suc i))
               | Some rows \<Rightarrow>
                   (case GetPullRequest (d\<lparr>pr_reviewers := rows\<rparr>) prID of
                      Inl e \<Rightarrow> (Inl e, d\<lparr>pr_reviewers := rows\<rparr>, \<lambda>i. g (Suc i))
                    | Inr updatedPR \<Rightarrow>
                        (Inr (updatedPR, candidates ! (g 0 mod length candidates)),
                         d\<lparr>pr_reviewers := rows\<rparr>, \<lambda>i. g (Suc i)))))"
  by (simp add: ReassignReviewer_def Let_def Intn_def split: option.split)

lemma ReassignReviewer_Inr:
  assumes res: "ReassignReviewer g d prID oldUserID = (Inr (pr, newReviewerID), d', g')"
  obtains p old cands where
    "find_pr d prID = Some p" "status p \<noteq> StatusMerged" "is_assigned d prID oldUserID"
    "find_user d oldUserID = Some old"
    "replacement_candidates d (map fst (exclusions 0 (current_reviewers d prID) oldUserID))
       ([team_name old, oldUserID] @ map snd (exclusions 0 (current_reviewers d prID) oldUserID)) = Some cands"
    "cands \<noteq> []" "newReviewerID = cands ! (g 0 mod length cands)" "g' = (\<lambda>i. g (Suc i))"
    "d' = d\<lparr>pr_reviewers := map (\<lambda>r. if r = (prID, oldUserID) then (prID, newReviewerID) else r) (pr_reviewers d)\<rparr>"
    "GetPullRequest d' prID = Inr pr"
proof -
  obtain p where fp: "find_pr d prID = Some p"
    using res ReassignReviewer_no_pr [of d prID g oldUserID] by (cases "find_pr d prID") simp_all
  have st: "status p \<noteq> StatusMerged"
    using res ReassignReviewer_pr_merged [OF fp, of g oldUserID] by auto
  have asg: "is_assigned d prID oldUserID"
    using res ReassignReviewer_not_assigned [OF fp st, of oldUserID g] by auto
  obtain old where fu: "find_user d oldUserID = Some old"
    using res ReassignReviewer_no_user [OF fp st asg, of g] by (cases "find_user d oldUserID") simp_all
  note unf = ReassignReviewer_query [OF fp st asg fu, of g]
  let ?rc = "replacement_candidates d (map fst (exclusions 0 (current_reviewers d prID) oldUserID))
       ([team_name old, oldUserID] @ map snd (exclusions 0 (current_reviewers d prID) oldUserID))"
  obtain cands where rc: "?rc = Some cands"
    using res unfolding unf by (cases ?rc) simp_all
  have ne: "cands \<noteq> []"
    using res unfolding unf rc by (cases "cands = []") simp_all
  let ?new = "cands ! (g 0 mod length cands)"
  obtain rows where rr: "replace_reviewer ?new prID oldUserID (pr_reviewers d) = Some rows"
    using res ne unfolding unf rc by (cases "replace_reviewer ?new prID oldUserID (pr_reviewers d)") simp_all
  have rows: "rows = map (\<lambda>r. if r = (prID, oldUserID) then (prID, ?new) else r) (pr_reviewers d)"
    using rr by (simp add: replace_reviewer_def split: if_splits)
  have fin: "newReviewerID = ?new \<and> g' = (\<lambda>i. g (Suc i)) \<and> d' = d\<lparr>pr_reviewers := rows\<rparr> \<and>
             GetPullRequest (d\<lparr>pr_reviewers := rows\<rparr>) prID = Inr pr"
    using res ne unfolding unf rc
    by (cases "GetPullRequest (d\<lparr>pr_reviewers := rows\<rparr>) prID") (simp_all add: rr)
  show thesis
    using that [OF fp st asg fu rc ne] fin rows by simp
qed

lemma ReassignReviewer_Inl:
  assumes res: "ReassignReviewer g d prID oldUserID = (Inl e, d', g')"
  shows "d' = d"
proof (cases "find_pr d prID")
  case None
  then show ?thesis
    using res by (simp add: ReassignReviewer_no_pr)
next
  case (Some p)
  note fp = this
  show ?thesis
  proof (cases "status p = StatusMerged")
    case True
    then show ?thesis using res fp by (simp add: ReassignReviewer_pr_merged)
  next
    case st: False
    show ?thesis
    proof (cases "is_assigned d prID oldUserID")
      case False
      then show ?thesis using res fp st by (simp add: ReassignReviewer_not_assigned)
    next
      case asg: True
      show ?thesis
      proof (cases "find_user d oldUserID")
        case None
        then show ?thesis using res fp st asg by (simp add: ReassignReviewer_no_user)
      next
        case (Some old)
        note unf = ReassignReviewer_query [OF fp st asg Some, of g]
        have gp: "GetPullRequest (d\<lparr>pr_reviewers := rows\<rparr>) prID \<noteq> Inl e" for rows e
          using fp by (simp add: GetPullRequest_def find_pr_def)
        show ?thesis
          using res gp unfolding unf
          by (auto split: option.splits if_splits sum.splits)
      qed
    qed
  qed
qed

lemma ReassignReviewer_Inr_state:
  assumes res: "ReassignReviewer g d prID oldUserID = (Inr (pr, newReviewerID), d', g')"
  shows "d' = d\<lparr>pr_reviewers := map (\<lambda>r. if r = (prID, oldUserID) then (prID, newReviewerID) else r) (pr_reviewers d)\<rparr> \<and>
         newReviewerID \<noteq> oldUserID \<and> \<not> inactive d newReviewerID \<and>
         (prID, newReviewerID) \<notin> set (pr_reviewers d)"
proof -
  from res obtain p old cands where
    fu: "find_user d oldUserID = Some old"
    and rc: "replacement_candidates d (map fst (exclusions 0 (current_reviewers d prID) oldUserID))
       ([team_name old, oldUserID] @ map snd (exclusions 0 (current_reviewers d prID) oldUserID)) = Some cands"
    and ne: "cands \<noteq> []" and new: "newReviewerID = cands ! (g 0 mod length cands)"
    and d': "d' = d\<lparr>pr_reviewers := map (\<lambda>r. if r = (prID, oldUserID) then (prID, newReviewerID) else r) (pr_reviewers d)\<rparr>"
    by (rule ReassignReviewer_Inr)
  have "newReviewerID \<in> set cands"
    using ne new by simp
  then obtain u where u: "u \<in> set (users d)" "user_id u = newReviewerID" "is_active u"
      "newReviewerID \<noteq> oldUserID" "newReviewerID \<notin> set (current_reviewers d prID)"
    unfolding replacement_candidates_set [OF rc] by auto
  have "(prID, newReviewerID) \<notin> set (pr_reviewers d)"
    using u(5) by (force simp: current_reviewers_def)
  then show ?thesis
    using d' u by (auto simp: inactive_def)
qed

lemma ReassignReviewer_distinct:
  assumes dist: "distinct (pr_reviewers d)"
    and res: "ReassignReviewer g d prID oldUserID = (r, d', g')"
  shows "distinct (pr_reviewers d')"
proof (cases r)
  case (Inl e)
  then show ?thesis
    using dist res ReassignReviewer_Inl by blast
next
  case (Inr ok)
  obtain pr new where ok: "ok = (pr, new)" by (cases ok)
  let ?upd = "\<lambda>r. if r = (prID, oldUserID) then (prID, new) else r"
  have run: "ReassignReviewer g d prID oldUserID = (Inr (pr, new), d', g')"
    using res Inr ok by simp
  have d': "d' = d\<lparr>pr_reviewers := map ?upd (pr_reviewers d)\<rparr>"
    and fresh: "(prID, new) \<notin> set (pr_reviewers d)"
    using ReassignReviewer_Inr_state [OF run] by simp_all
  have "inj_on ?upd (set (pr_reviewers d))"
    using fresh by (auto simp: inj_on_def)
  then show ?thesis
    using dist by (simp add: d' distinct_map)
qed

text \<open>
  Claim C4. On a well-formed database, \<open>ReassignReviewer\<close> on a pull request whose
  status is \<^verbatim>\<open>MERGED\<close> fails with \<^verbatim>\<open>PR_MERGED\<close> for every reviewer id, and
  returns the database and the random source as they were.
\<close>

theorem ReassignReviewer_merged:
  assumes "wf_db d" and "p \<in> set (pull_requests d)" and "status p = StatusMerged"
  shows "ReassignReviewer g d (pull_request_id p) oldUserID =
           (Inl (Errorf ''PR_MERGED: cannot reassign on merged PR''), d, g)"
proof -
  have "distinct (map pull_request_id (pull_requests d))"
    using assms(1) by (simp add: wf_db_def)
  then have "find_pr d (pull_request_id p) = Some p"
    unfolding find_pr_def using assms(2) by (rule find_key_distinct)
  then show ?thesis
    using assms(3) by (simp add: ReassignReviewer_def)
qed

theorem ReassignReviewer_merged_witness:
  "wf_db db_merged \<and> pr_1 ''MERGED'' (Some 2) \<in> set (pull_requests db_merged) \<and>
   status (pr_1 ''MERGED'' (Some 2)) = StatusMerged \<and>
   ReassignReviewer (\<lambda>_. 0) db_merged ''pr-1'' ''u2'' =
     (Inl (Errorf ''PR_MERGED: cannot reassign on merged PR''), db_merged, \<lambda>_. 0)"
proof -
  have wf: "wf_db db_merged"
    by (simp add: wf_db_def backend_user_def pr_1_def db_team_def db_pr_def db_merged_def)
  have p: "pr_1 ''MERGED'' (Some 2) \<in> set (pull_requests db_merged)"
    by (simp add: backend_user_def pr_1_def db_team_def db_pr_def db_merged_def)
  have st: "status (pr_1 ''MERGED'' (Some 2)) = StatusMerged"
    by (simp add: backend_user_def pr_1_def db_team_def db_pr_def db_merged_def StatusMerged_def)
  show ?thesis
    using wf p st ReassignReviewer_merged [OF wf p st, of "\<lambda>_. 0" "''u2''"]
    by (simp add: pr_1_def)
qed

text \<open>
  Claim C2. Whenever \<open>ReassignReviewer\<close> succeeds, the new reviewer differs from the
  old one, was not assigned to the pull request before the call, and is the id of an
  active user of the old reviewer's team. It is drawn from the candidate pool, and the
  pool is exactly this: the ids, in ascending order, of the active users of the old
  reviewer's team that are neither the old reviewer nor a current reviewer of the pull
  request; the pool is not empty and the new reviewer is its entry at the index that
  \<^verbatim>\<open>rand.Intn\<close> returns for its length. The old reviewer was assigned, and the
  reviewers of the pull request after the call are those before it with the old
  reviewer replaced by the new one: as many as before. The pull request returned lists
  them in ascending order.
\<close>

theorem ReassignReviewer_replaces:
  assumes "ReassignReviewer g d prID oldUserID = (Inr (pr, newReviewerID), d', g')"
  shows "newReviewerID \<noteq> oldUserID \<and>
         newReviewerID \<notin> set (current_reviewers d prID) \<and>
         (\<exists>old u. find_user d oldUserID = Some old \<and> u \<in> set (users d) \<and>
                  user_id u = newReviewerID \<and> is_active u \<and> team_name u = team_name old) \<and>
         (\<exists>old pool.
            find_user d oldUserID = Some old \<and>
            pool = sort (map user_id
                     (filter (\<lambda>u. team_name u = team_name old \<and> is_active u \<and>
                                   user_id u \<notin> insert oldUserID (set (current_reviewers d prID)))
                        (users d))) \<and>
            pool \<noteq> [] \<and> newReviewerID = pool ! (g 0 mod length pool)) \<and>
         oldUserID \<in> set (current_reviewers d prID) \<and>
         current_reviewers d' prID =
           map (\<lambda>r. if r = oldUserID then newReviewerID else r) (current_reviewers d prID) \<and>
         length (current_reviewers d' prID) = length (current_reviewers d prID) \<and>
         set (current_reviewers d' prID) =
           insert newReviewerID (set (current_reviewers d prID) - {oldUserID}) \<and>
         AssignedReviewers pr = sort (current_reviewers d' prID)"
proof -
  from assms obtain p old cands where
    fp: "find_pr d prID = Some p" and asg: "is_assigned d prID oldUserID"
    and fu: "find_user d oldUserID = Some old"
    and rc: "replacement_candidates d (map fst (exclusions 0 (current_reviewers d prID) oldUserID))
       ([team_name old, oldUserID] @ map snd (exclusions 0 (current_reviewers d prID) oldUserID)) = Some cands"
    and ne: "cands \<noteq> []" and new: "newReviewerID = cands ! (g 0 mod length cands)"
    and d': "d' = d\<lparr>pr_reviewers := map (\<lambda>r. if r = (prID, oldUserID) then (prID, newReviewerID) else r) (pr_reviewers d)\<rparr>"
    and gp: "GetPullRequest d' prID = Inr pr"
    by (rule ReassignReviewer_Inr)
  have "newReviewerID \<in> set cands"
    using ne new by simp
  then obtain u where u: "u \<in> set (users d)" "user_id u = newReviewerID" "team_name u = team_name old"
      "is_active u" "newReviewerID \<noteq> oldUserID" "newReviewerID \<notin> set (current_reviewers d prID)"
    unfolding replacement_candidates_set [OF rc] by auto
  have member: "\<exists>old u. find_user d oldUserID = Some old \<and> u \<in> set (users d) \<and>
                  user_id u = newReviewerID \<and> is_active u \<and> team_name u = team_name old"
    using fu u by blast
  have pool: "\<exists>old pool.
            find_user d oldUserID = Some old \<and>
            pool = sort (map user_id
                     (filter (\<lambda>u. team_name u = team_name old \<and> is_active u \<and>
                                   user_id u \<notin> insert oldUserID (set (current_reviewers d prID)))
                        (users d))) \<and>
            pool \<noteq> [] \<and> newReviewerID = pool ! (g 0 mod length pool)"
    using fu ne new replacement_candidates_pool [OF rc] by blast
  have old_in: "oldUserID \<in> set (current_reviewers d prID)"
    using asg by (force simp: is_assigned_def current_reviewers_def)
  have cr: "current_reviewers d' prID =
           map (\<lambda>r. if r = oldUserID then newReviewerID else r) (current_reviewers d prID)"
    unfolding d' by (simp add: current_reviewers_replace)
  have st: "set (current_reviewers d' prID) =
           insert newReviewerID (set (current_reviewers d prID) - {oldUserID})"
    unfolding cr using old_in by auto
  have len: "length (current_reviewers d' prID) = length (current_reviewers d prID)"
    unfolding cr by simp
  have ar: "AssignedReviewers pr = sort (current_reviewers d' prID)"
    using gp by (auto simp: GetPullRequest_def split: option.splits)
  show ?thesis
    by (rule conjI [OF u(5) conjI [OF u(6) conjI [OF member conjI [OF pool
          conjI [OF old_in conjI [OF cr conjI [OF len conjI [OF st ar]]]]]]]])
qed

theorem ReassignReviewer_replaces_witness:
  "ReassignReviewer (\<lambda>_. 1) db_pr4 ''pr-1'' ''u3'' =
     (Inr (\<lparr>PullRequestID = ''pr-1'', PullRequestName = ''Test PR'', AuthorID = ''u1'',
            Status = ''OPEN'', AssignedReviewers = [''u2'', ''u4''],
            CreatedAt = Some 1, MergedAt = None\<rparr>, ''u4''),
      db_pr4\<lparr>pr_reviewers := [(''pr-1'', ''u2''), (''pr-1'', ''u4'')]\<rparr>, \<lambda>_. 1) \<and>
   current_reviewers db_pr4 ''pr-1'' = [''u2'', ''u3''] \<and>
   sort (map user_id
     (filter (\<lambda>u. team_name u = ''backend'' \<and> is_active u \<and> user_id u \<notin> {''u3'', ''u2''})
        (users db_pr4))) = [''u1'', ''u4''] \<and>
   ''u4'' = [''u1'', ''u4''] ! (1 mod length [''u1'', ''u4'']) \<and>
   ''u4'' \<notin> set (current_reviewers db_pr4 ''pr-1'')"
proof -
  have ok: "stmt_ok [Suc 0, 2, 3] [''backend'', ''u3'', ''u2'']"
    by (auto simp: stmt_ok_def)
  have run: "ReassignReviewer (\<lambda>_. 1) db_pr4 ''pr-1'' ''u3'' =
     (Inr (\<lparr>PullRequestID = ''pr-1'', PullRequestName = ''Test PR'', AuthorID = ''u1'',
            Status = ''OPEN'', AssignedReviewers = [''u2'', ''u4''],
            CreatedAt = Some 1, MergedAt = None\<rparr>, ''u4''),
      db_pr4\<lparr>pr_reviewers := [(''pr-1'', ''u2''), (''pr-1'', ''u4'')]\<rparr>, \<lambda>_. 1)"
    by (simp add: ReassignReviewer_def backend_user_def pr_1_def db_team_def db_team4_def
        db_pr4_def find_pr_def find_user_def is_assigned_def current_reviewers_def
        StatusMerged_def less_eq_char_def less_char_def replacement_candidates_def ok
        param_def Intn_def replace_reviewer_def GetPullRequest_def Let_def)
  have cur: "current_reviewers db_pr4 ''pr-1'' = [''u2'', ''u3'']"
    by (simp add: current_reviewers_def db_pr4_def)
  have pool: "sort (map user_id
     (filter (\<lambda>u. team_name u = ''backend'' \<and> is_active u \<and> user_id u \<notin> {''u3'', ''u2''})
        (users db_pr4))) = [''u1'', ''u4'']"
    by (simp add: backend_user_def db_team_def db_team4_def db_pr4_def
        less_eq_char_def less_char_def)
  have idx: "''u4'' = [''u1'', ''u4''] ! (1 mod length [''u1'', ''u4''])"
    by simp
  note replaced = ReassignReviewer_replaces [OF run]
  have fresh: "''u4'' \<notin> set (current_reviewers db_pr4 ''pr-1'')"
    by (rule replaced [THEN conjunct2, THEN conjunct1])
  show ?thesis
    by (rule conjI [OF run conjI [OF cur conjI [OF pool conjI [OF idx fresh]]]])
qed

text \<open>
  Claim C5, at an input where the code departs from it. In \<open>db_author_inactive\<close> the
  pull request \<^verbatim>\<open>pr-1\<close> is open, \<^verbatim>\<open>u2\<close> and \<^verbatim>\<open>u3\<close> are its reviewers and exist,
  and no active user of their team is left outside the exclusion set: the pool is empty.
  For \<^verbatim>\<open>u3\<close>, read last among the current reviewers, the call fails with
  \<^verbatim>\<open>NO_CANDIDATE\<close>. For \<^verbatim>\<open>u2\<close>, read first, the loop over the current reviewers
  numbers the parameter of \<^verbatim>\<open>u3\<close> by its position in the list (\<^verbatim>\<open>$4\<close>) while
  three arguments are passed: the candidate query does not execute, and the call fails
  with the driver's error instead.
\<close>

theorem ReassignReviewer_candidate_query_fails:
  "current_reviewers db_author_inactive ''pr-1'' = [''u2'', ''u3''] \<and>
   filter (\<lambda>u. team_name u = ''backend'' \<and> is_active u \<and> user_id u \<notin> {''u2'', ''u3''})
     (users db_author_inactive) = [] \<and>
   ReassignReviewer g db_author_inactive ''pr-1'' ''u3'' =
     (Inl (Errorf ''NO_CANDIDATE: no active replacement candidate in team''), db_author_inactive, g) \<and>
   map fst (exclusions 0 [''u2'', ''u3''] ''u2'') = [4] \<and>
   ReassignReviewer g db_author_inactive ''pr-1'' ''u2'' = (Inl DriverError, db_author_inactive, g)"
proof -
  have ok: "stmt_ok [Suc 0, 2, 3] [''backend'', ''u3'', ''u2'']"
    by (auto simp: stmt_ok_def)
  have bad: "\<not> stmt_ok [Suc 0, 2, 4] [''backend'', ''u2'', ''u3'']"
    by (auto simp: stmt_ok_def)
  show ?thesis
    by (simp add: ReassignReviewer_def backend_user_def pr_1_def db_team_def db_pr_def
        db_author_inactive_def find_pr_def find_user_def is_assigned_def current_reviewers_def
        StatusMerged_def less_eq_char_def less_char_def replacement_candidates_def ok bad
        param_def Let_def)
qed

section \<open>BulkDeactivateUsers\<close>

lemma BulkDeactivateUsers_loop_map:
  "distinct (map user_id us) \<Longrightarrow>
     BulkDeactivateUsers_loop teamName userIDs us = map (deactivated teamName (set userIDs)) us"
proof (induction userIDs arbitrary: us)
  case Nil
  then show ?case by (simp add: deactivated_def)
next
  case (Cons userID rest)
  show ?case
  proof (cases "find (\<lambda>u. user_id u = userID) us")
    case None
    then have "userID \<notin> set (map user_id us)"
      by (simp add: find_None_key)
    then have "map (deactivated teamName (set (userID # rest))) us = map (deactivated teamName (set rest)) us"
      by (auto simp: deactivated_def)
    then show ?thesis
      using None Cons by simp
  next
    case (Some u)
    then have u: "u \<in> set us" "user_id u = userID"
      using find_Some_key [of user_id userID us u] by simp_all
    have uniq: "v = u" if "v \<in> set us" "user_id v = userID" for v
      using that u Cons.prems by (metis distinct_map inj_onD)
    show ?thesis
    proof (cases "team_name u = teamName")
      case False
      have "map (deactivated teamName (set (userID # rest))) us = map (deactivated teamName (set rest)) us"
        using uniq False by (auto simp: deactivated_def)
      then show ?thesis
        using Some False Cons by simp
    next
      case True
      let ?g = "\<lambda>x. if user_id x = userID then x\<lparr>is_active := False\<rparr> else x"
      have ids: "map user_id (map ?g us) = map user_id us"
        by (induction us) auto
      have "distinct (map user_id (map ?g us))"
        unfolding ids by (rule Cons.prems)
      then have "BulkDeactivateUsers_loop teamName rest (map ?g us) =
              map (deactivated teamName (set rest)) (map ?g us)"
        by (rule Cons.IH)
      moreover have "map (deactivated teamName (set rest)) (map ?g us) =
                     map (deactivated teamName (set (userID # rest))) us"
        using uniq True by (auto simp: deactivated_def)
      ultimately show ?thesis
        using Some True by simp
    qed
  qed
qed

text \<open>
  Claim C7. \<open>BulkDeactivateUsers\<close> on an unknown team returns \<^verbatim>\<open>NOT_FOUND\<close> and the
  database it was given. On a known team of a well-formed database it returns no error,
  and the database differs from the given one in the active flag only: it is false for
  every user whose id is listed and whose team is the given one, and every other row of
  \<^verbatim>\<open>users\<close> (an id that is not listed, or listed but of another team) and the three
  other tables are as before; a listed id without a row changes nothing.
\<close>

theorem BulkDeactivateUsers_effect:
  assumes "wf_db d"
  shows "(\<not> team_exists d teamName \<longrightarrow>
            BulkDeactivateUsers d teamName userIDs = (Some (Errorf ''NOT_FOUND: team not found''), d)) \<and>
         (team_exists d teamName \<longrightarrow>
            BulkDeactivateUsers d teamName userIDs =
              (None, d\<lparr>users :=
                 map (\<lambda>u. if user_id u \<in> set userIDs \<and> team_name u = teamName
                          then u\<lparr>is_active := False\<rparr> else u) (users d)\<rparr>))"
proof -
  have "distinct (map user_id (users d))"
    using assms by (simp add: wf_db_def)
  then have "BulkDeactivateUsers_loop teamName userIDs (users d) =
               map (deactivated teamName (set userIDs)) (users d)"
    by (rule BulkDeactivateUsers_loop_map)
  then show ?thesis
    by (simp add: BulkDeactivateUsers_def deactivated_def [abs_def])
qed

theorem BulkDeactivateUsers_effect_witness:
  "wf_db db_pr \<and> team_exists db_pr ''backend'' \<and> \<not> team_exists db_pr ''frontend'' \<and>
   BulkDeactivateUsers db_pr ''backend'' [''u2'', ''u9'', ''u3''] = (None, db_reviewers_inactive) \<and>
   BulkDeactivateUsers db_pr ''frontend'' [''u2''] =
     (Some (Errorf ''NOT_FOUND: team not found''), db_pr)"
proof -
  have wf: "wf_db db_pr"
    by (simp add: wf_db_def backend_user_def pr_1_def db_team_def db_pr_def
        db_reviewers_inactive_def)
  show ?thesis
    using wf BulkDeactivateUsers_effect [OF wf, of "''backend''" "[''u2'', ''u9'', ''u3'']"]
      BulkDeactivateUsers_effect [OF wf, of "''frontend''" "[''u2'']"]
    by (simp add: backend_user_def pr_1_def db_team_def db_pr_def db_reviewers_inactive_def
        team_exists_def)
qed

section \<open>SafeReassignOpenPRs\<close>

lemma SafeReassignOpenPRs_loop_skips:
  assumes "ReassignReviewer g d prID oldID = (Inl e, d1, g1)"
  shows "SafeReassignOpenPRs_loop g d ((prID, oldID, teamName) # rest) n =
           SafeReassignOpenPRs_loop g1 d rest n"
  using assms ReassignReviewer_Inl [OF assms] by simp






text \<open>
  With a driver that converts the list of ids the same call reaches the loop: the
  reassignment of \<^verbatim>\<open>u2\<close> fails and is passed over, that of \<^verbatim>\<open>u3\<close> succeeds, and
  the count is 1.
\<close>

lemma SafeReassignOpenPRs_converting_driver:
  "SafeReassignOpenPRs True (\<lambda>_. 0) db_reviewers_inactive [''u2'', ''u3''] =
     ((1, None),
      db_reviewers_inactive\<lparr>pr_reviewers := [(''pr-1'', ''u2''), (''pr-1'', ''u1'')]\<rparr>, \<lambda>_. 0)"
proof -
  have pairs: "open_inactive_pairs db_reviewers_inactive [''u2'', ''u3''] =
     [(''pr-1'', ''u2'', ''backend''), (''pr-1'', ''u3'', ''backend'')]"
    by (simp add: open_inactive_pairs_def backend_user_def pr_1_def db_team_def db_pr_def
        db_reviewers_inactive_def)
  have ok: "stmt_ok [Suc 0, 2, 3] [''backend'', ''u3'', ''u2'']"
    by (auto simp: stmt_ok_def)
  have bad: "\<not> stmt_ok [Suc 0, 2, 4] [''backend'', ''u2'', ''u3'']"
    by (auto simp: stmt_ok_def)
  have first: "ReassignReviewer (\<lambda>_. 0) db_reviewers_inactive ''pr-1'' ''u2'' =
     (Inl DriverError, db_reviewers_inactive, \<lambda>_. 0)"
    by (simp add: ReassignReviewer_def backend_user_def pr_1_def db_team_def db_pr_def
        db_reviewers_inactive_def find_pr_def find_user_def is_assigned_def current_reviewers_def
        StatusMerged_def less_eq_char_def less_char_def replacement_candidates_def bad
        param_def Let_def)
  have second: "ReassignReviewer (\<lambda>_. 0) db_reviewers_inactive ''pr-1'' ''u3'' =
     (Inr (\<lparr>PullRequestID = ''pr-1'', PullRequestName = ''Test PR'', AuthorID = ''u1'',
            Status = ''OPEN'', AssignedReviewers = [''u1'', ''u2''],
            CreatedAt = Some 1, MergedAt = None\<rparr>, ''u1''),
      db_reviewers_inactive\<lparr>pr_reviewers := [(''pr-1'', ''u2''), (''pr-1'', ''u1'')]\<rparr>, \<lambda>_. 0)"
    by (simp add: ReassignReviewer_def backend_user_def pr_1_def db_team_def db_pr_def
        db_reviewers_inactive_def find_pr_def find_user_def is_assigned_def current_reviewers_def
        StatusMerged_def less_eq_char_def less_char_def replacement_candidates_def ok
        param_def Intn_def replace_reviewer_def GetPullRequest_def Let_def)
  show ?thesis
    by (simp add: SafeReassignOpenPRs_def open_inactive_pairs_query_def pairs first second)
qed

section \<open>The author as a reviewer\<close>

text \<open>
  Claim C9, at an input where the code departs from it. From the empty database,
  \<open>CreateTeam\<close> of the team \<^verbatim>\<open>backend\<close> and \<open>CreatePullRequest\<close> of \<^verbatim>\<open>pr-1\<close> by
  \<^verbatim>\<open>u1\<close> give \<open>db_pr\<close>, where \<^verbatim>\<open>u2\<close> and \<^verbatim>\<open>u3\<close> review the pull request.
  \<open>ReassignReviewer\<close> of \<^verbatim>\<open>u3\<close> then succeeds, whatever the random source, and the
  new reviewer is \<^verbatim>\<open>u1\<close>, the author of the pull request: the candidate query leaves
  out the old reviewer and the current reviewers, and not the author.
\<close>

theorem ReassignReviewer_assigns_author:
  "CreateTeam db_empty backend_team = (None, db_team) \<and>
   CreatePullRequest [] [] 1 db_team ''pr-1'' ''Test PR'' ''u1'' =
     (Inr \<lparr>PullRequestID = ''pr-1'', PullRequestName = ''Test PR'', AuthorID = ''u1'',
           Status = ''OPEN'', AssignedReviewers = [''u2'', ''u3''],
           CreatedAt = Some 1, MergedAt = None\<rparr>, db_pr) \<and>
   ReassignReviewer g db_pr ''pr-1'' ''u3'' =
     (Inr (\<lparr>PullRequestID = ''pr-1'', PullRequestName = ''Test PR'', AuthorID = ''u1'',
            Status = ''OPEN'', AssignedReviewers = [''u1'', ''u2''],
            CreatedAt = Some 1, MergedAt = None\<rparr>, ''u1''),
      db_pr\<lparr>pr_reviewers := [(''pr-1'', ''u2''), (''pr-1'', ''u1'')]\<rparr>, \<lambda>i. g (Suc i))"
proof -
  have ok: "stmt_ok [Suc 0, 2, 3] [''backend'', ''u3'', ''u2'']"
    by (auto simp: stmt_ok_def)
  have team: "CreateTeam db_empty backend_team = (None, db_team)"
    by (simp add: backend_team_def backend_user_def db_empty_def db_team_def team_exists_def
        CreateTeam_def CreateTeam_members_def)
  have create: "CreatePullRequest [] [] 1 db_team ''pr-1'' ''Test PR'' ''u1'' =
     (Inr \<lparr>PullRequestID = ''pr-1'', PullRequestName = ''Test PR'', AuthorID = ''u1'',
           Status = ''OPEN'', AssignedReviewers = [''u2'', ''u3''],
           CreatedAt = Some 1, MergedAt = None\<rparr>, db_pr)"
    by (simp add: backend_user_def pr_1_def db_team_def db_pr_def pr_exists_def find_user_def
        find_pr_def current_reviewers_def team_candidates_def StatusOpen_def less_eq_char_def
        less_char_def CreatePullRequest_def selectRandomReviewers_def
        GetPullRequest_def Let_def)
  have reassign: "ReassignReviewer g db_pr ''pr-1'' ''u3'' =
     (Inr (\<lparr>PullRequestID = ''pr-1'', PullRequestName = ''Test PR'', AuthorID = ''u1'',
            Status = ''OPEN'', AssignedReviewers = [''u1'', ''u2''],
            CreatedAt = Some 1, MergedAt = None\<rparr>, ''u1''),
      db_pr\<lparr>pr_reviewers := [(''pr-1'', ''u2''), (''pr-1'', ''u1'')]\<rparr>, \<lambda>i. g (Suc i))"
    by (simp add: ReassignReviewer_def backend_user_def pr_1_def db_team_def db_pr_def
        find_pr_def find_user_def is_assigned_def current_reviewers_def StatusMerged_def
        less_eq_char_def less_char_def replacement_candidates_def ok
        param_def Intn_def replace_reviewer_def GetPullRequest_def Let_def)
  show ?thesis
    using team create reassign by simp
qed

end
